theory Spec2Isabelle
  imports Complex_Main
begin

section \<open>Fixed-shape tensors of rank one and two\<close>

text \<open>
  The C++ type \<open>tensor<T, m>\<close> holds an array \<open>T data[m]\<close>, and \<open>tensor<T, m, n>\<close>
  holds an array of \<open>m\<close> rows \<open>tensor<T, n>\<close>. A vector is a list of its entries and a
  matrix the list of its rows, so that \<open>A[i][j]\<close> is \<open>A ! i ! j\<close>. The extents are template
  parameters in the source; here they are explicit arguments of every operation, and a
  shape predicate says that a value has the extents of its static type. The scalar type
  \<open>double\<close> is the type of real numbers: all results below are results of exact
  arithmetic. A \<open>for\<close> loop over \<open>i = a, ..., b - 1\<close> is a \<open>fold\<close> over \<open>[a..<b]\<close> that
  passes the mutated local variables along; a loop nest that assigns every entry of a
  new tensor once, from values that do not depend on the tensor, is a \<open>map\<close> over the
  indices. Overloads of one name in the source carry a suffix here.
\<close>

definition is_vec :: "nat \<Rightarrow> 'a list \<Rightarrow> bool" where
  "is_vec n v = (length v = n)"

definition is_mat :: "nat \<Rightarrow> nat \<Rightarrow> 'a list list \<Rightarrow> bool" where
  "is_mat m n A = (length A = m \<and> list_all (\<lambda>row. length row = n) A)"

text \<open>\<open>tr\<close>: the running sum \<open>trA = trA + A[i][i]\<close>, started at \<open>T{}\<close>.\<close>

definition tr :: "nat \<Rightarrow> real list list \<Rightarrow> real" where
  "tr n A = fold (\<lambda>i trA. trA + A ! i ! i) [0..<n] 0"

text \<open>\<open>dev\<close>: a copy of \<open>A\<close> whose diagonal entries are decreased by \<open>trA / n\<close> in turn.\<close>

definition dev :: "nat \<Rightarrow> real list list \<Rightarrow> real list list" where
  "dev n A =
     (let devA = A;
          trA = tr n A
      in fold (\<lambda>i devA. devA[i := (devA ! i)[i := devA ! i ! i - trA / real n]]) [0..<n] devA)"

text \<open>\<open>make_tensor<n1, n2>(f)\<close>: the entry at \<open>(i, j)\<close> is \<open>f(i, j)\<close>.\<close>

definition make_tensor2 :: "nat \<Rightarrow> nat \<Rightarrow> (nat \<Rightarrow> nat \<Rightarrow> 'a) \<Rightarrow> 'a list list" where
  "make_tensor2 n1 n2 f = map (\<lambda>i. map (\<lambda>j. f i j) [0..<n2]) [0..<n1]"

text \<open>The two closed-form determinants.\<close>

definition det2 :: "real list list \<Rightarrow> real" where
  "det2 A = A ! 0 ! 0 * A ! 1 ! 1 - A ! 0 ! 1 * A ! 1 ! 0"

definition det3 :: "real list list \<Rightarrow> real" where
  "det3 A =
     A ! 0 ! 0 * A ! 1 ! 1 * A ! 2 ! 2 + A ! 0 ! 1 * A ! 1 ! 2 * A ! 2 ! 0
       + A ! 0 ! 2 * A ! 1 ! 0 * A ! 2 ! 1
       - A ! 0 ! 0 * A ! 1 ! 2 * A ! 2 ! 1 - A ! 0 ! 1 * A ! 1 ! 0 * A ! 2 ! 2
       - A ! 0 ! 2 * A ! 1 ! 1 * A ! 2 ! 0"

text \<open>
  \<open>is_symmetric\<close>: the two nested loops return \<open>false\<close> at the first pair \<open>i < j\<close> with
  \<open>|A(i, j) - A(j, i)| > tolerance\<close>, and \<open>true\<close> when there is none.
\<close>

definition is_symmetric :: "nat \<Rightarrow> real list list \<Rightarrow> real \<Rightarrow> bool" where
  "is_symmetric n A tolerance =
     list_all (\<lambda>i. list_all (\<lambda>j. \<not> (\<bar>A ! i ! j - A ! j ! i\<bar> > tolerance)) [i + 1..<n]) [0..<n]"

text \<open>The default argument of \<open>is_symmetric\<close>, \<open>1.0e-8\<close>.\<close>

definition default_tolerance :: real where
  "default_tolerance = 1 / 100000000"

text \<open>\<open>is_symmetric_and_positive_definite\<close>, the overload for \<open>tensor<double, 2, 2>\<close>.\<close>

definition is_symmetric_and_positive_definite2 :: "real list list \<Rightarrow> bool" where
  "is_symmetric_and_positive_definite2 A =
     (if \<not> is_symmetric 2 A default_tolerance then False
      else if A ! 0 ! 0 < 0 then False
      else if det2 A < 0 then False
      else True)"

text \<open>The overload for \<open>tensor<double, 3, 3>\<close>, which calls the one above on the upper left block.\<close>

definition is_symmetric_and_positive_definite3 :: "real list list \<Rightarrow> bool" where
  "is_symmetric_and_positive_definite3 A =
     (if \<not> is_symmetric 3 A default_tolerance then False
      else if det3 A < 0 then False
      else let subtensor = make_tensor2 2 2 (\<lambda>i j. A ! i ! j)
           in if \<not> is_symmetric_and_positive_definite2 subtensor then False
              else True)"

section \<open>The sentinel \<open>zero\<close>\<close>

text \<open>
  \<open>struct zero\<close> has no members. C++ selects an overload of an operator by the static
  types of its operands, so every overload that takes a \<open>zero\<close> is a function of its
  own here, polymorphic in the type \<open>T\<close> of the other operand (a scalar, a tensor of any
  shape, a dual number).
\<close>

datatype zero = Zero

text \<open>\<open>operator+(zero, zero)\<close>, \<open>operator+(zero, T other)\<close> and \<open>operator+(T other, zero)\<close>.\<close>

definition plus_zero_zero :: "zero \<Rightarrow> zero \<Rightarrow> zero" where
  "plus_zero_zero a b = Zero"

definition plus_zero_T :: "zero \<Rightarrow> 'a \<Rightarrow> 'a" where
  "plus_zero_T z other = other"

definition plus_T_zero :: "'a \<Rightarrow> zero \<Rightarrow> 'a" where
  "plus_T_zero other z = other"

text \<open>
  \<open>operator-(zero)\<close>, \<open>operator-(zero, zero)\<close>, \<open>operator-(zero, T other)\<close>, which returns
  \<open>-other\<close>, and \<open>operator-(T other, zero)\<close>.
\<close>

definition uminus_zero :: "zero \<Rightarrow> zero" where
  "uminus_zero z = Zero"

definition minus_zero_zero :: "zero \<Rightarrow> zero \<Rightarrow> zero" where
  "minus_zero_zero a b = Zero"

definition minus_zero_T :: "zero \<Rightarrow> 'a::uminus \<Rightarrow> 'a" where
  "minus_zero_T z other = - other"

definition minus_T_zero :: "'a \<Rightarrow> zero \<Rightarrow> 'a" where
  "minus_T_zero other z = other"

text \<open>\<open>operator*(zero, zero)\<close>, \<open>operator*(zero, T)\<close> and \<open>operator*(T, zero)\<close>.\<close>

definition times_zero_zero :: "zero \<Rightarrow> zero \<Rightarrow> zero" where
  "times_zero_zero a b = Zero"

definition times_zero_T :: "zero \<Rightarrow> 'a \<Rightarrow> zero" where
  "times_zero_T z other = Zero"

definition times_T_zero :: "'a \<Rightarrow> zero \<Rightarrow> zero" where
  "times_T_zero other z = Zero"

text \<open>\<open>operator/(zero, T)\<close>.\<close>

definition divide_zero_T :: "zero \<Rightarrow> 'a \<Rightarrow> zero" where
  "divide_zero_T z other = Zero"

text \<open>\<open>zero::operator double()\<close> returns \<open>0.0\<close>.\<close>

definition zero_to_double :: "zero \<Rightarrow> real" where
  "zero_to_double z = 0"

section \<open>Tensors of any rank\<close>

text \<open>
  The variadic templates (\<open>template <typename T, int m, int... n>\<close>) work on tensors of
  every rank at once. For them a tensor is a tree: \<open>tensor<T, m, n...>\<close> is a node whose
  \<open>data\<close> are \<open>m\<close> tensors \<open>tensor<T, n...>\<close>, and an entry of type \<open>T\<close> is a leaf. The
  shape \<open>m, n...\<close> of the static type is a list of extents.
\<close>

datatype 'a tensor = Scalar (entry: 'a) | Tensor (data: "'a tensor list")

fun has_shape :: "nat list \<Rightarrow> 'a tensor \<Rightarrow> bool" where
  "has_shape [] (Scalar x) = True"
| "has_shape [] (Tensor xs) = False"
| "has_shape (n # ns) (Scalar x) = False"
| "has_shape (n # ns) (Tensor xs) = (length xs = n \<and> list_all (has_shape ns) xs)"

text \<open>A value-initialised tensor \<open>tensor<T, n...>{}\<close> holds \<open>T{}\<close> in every entry.\<close>

fun fill :: "nat list \<Rightarrow> 'a \<Rightarrow> 'a tensor" where
  "fill [] x = Scalar x"
| "fill (n # ns) x = Tensor (replicate n (fill ns x))"

text \<open>\<open>zero::operator tensor<T, n...>()\<close> returns \<open>tensor<T, n...>{}\<close>.\<close>

definition zero_to_tensor :: "nat list \<Rightarrow> zero \<Rightarrow> real tensor" where
  "zero_to_tensor ns z = fill ns 0"

text \<open>
  \<open>A(i...)\<close> read (\<open>tensor_at\<close>) and assigned to (\<open>tensor_put\<close>). With fewer indices than
  the rank, \<open>A(i...)\<close> is the sub-tensor \<open>data[i](jklm...)\<close>.
\<close>

fun tensor_at :: "'a tensor \<Rightarrow> nat list \<Rightarrow> 'a tensor" where
  "tensor_at A [] = A"
| "tensor_at A (i # jklm) = tensor_at (data A ! i) jklm"

fun tensor_put :: "'a tensor \<Rightarrow> nat list \<Rightarrow> 'a tensor \<Rightarrow> 'a tensor" where
  "tensor_put A [] v = v"
| "tensor_put A (i # jklm) v = Tensor ((data A)[i := tensor_put (data A ! i) jklm v])"

text \<open>
  Faults of an expression that the model has no value for: a subscript outside the array
  (undefined behaviour), a subscript on a type that has none, a call of an object that is
  not a function, and an assignment to an object that is \<open>const\<close>.
\<close>

datatype fault = Out_of_bounds | No_subscript | Not_callable | Assignment_to_const

text \<open>The assignment \<open>C[i] = v\<close>.\<close>

fun store :: "'a tensor \<Rightarrow> nat \<Rightarrow> 'a tensor \<Rightarrow> fault + 'a tensor" where
  "store (Tensor xs) i v = (if i < length xs then Inr (Tensor (xs[i := v])) else Inl Out_of_bounds)"
| "store (Scalar x) i v = Inl No_subscript"

text \<open>
  \<open>operator/(S scale, const tensor<T, m, n...>& A)\<close>. The result is declared as
  \<open>tensor<decltype(S{} * T{}), n...> C{}\<close>, without the leading extent \<open>m\<close>, and the loop
  assigns \<open>C[i] = scale / A[i]\<close> for \<open>i = 0, ..., m - 1\<close>. On the entries, \<open>scale / A[i]\<close> is
  the division of \<open>double\<close>. The template \<open>tensor\<close> is specialised for one extent and for
  more; with no extent it has no definition, hence no subscript.
\<close>

fun divide_scalar_tensor :: "real \<Rightarrow> nat list \<Rightarrow> real tensor \<Rightarrow> fault + real tensor" where
  "divide_scalar_tensor scale [] A = Inr (Scalar (scale / entry A))"
| "divide_scalar_tensor scale (m # n) A =
     fold (\<lambda>i C. case C of
                   Inl f \<Rightarrow> Inl f
                 | Inr C' \<Rightarrow> (case divide_scalar_tensor scale n (data A ! i) of
                               Inl f \<Rightarrow> Inl f
                             | Inr q \<Rightarrow> store C' i q))
       [0..<m] (Inr (fill n 0))"

text \<open>
  Its neighbour \<open>operator/(const tensor<T, m, n...>& A, S scale)\<close> declares
  \<open>tensor<decltype(T{} * S{}), m, n...> C{}\<close> and assigns \<open>C[i] = A[i] / scale\<close>.
\<close>

fun divide_tensor_scalar :: "nat list \<Rightarrow> real tensor \<Rightarrow> real \<Rightarrow> fault + real tensor" where
  "divide_tensor_scalar [] A scale = Inr (Scalar (entry A / scale))"
| "divide_tensor_scalar (m # n) A scale =
     fold (\<lambda>i C. case C of
                   Inl f \<Rightarrow> Inl f
                 | Inr C' \<Rightarrow> (case divide_tensor_scalar n (data A ! i) scale of
                               Inl f \<Rightarrow> Inl f
                             | Inr q \<Rightarrow> store C' i q))
       [0..<m] (Inr (fill (m # n) 0))"

section \<open>The boundary integral\<close>

text \<open>
  \<open>mfem::Vector\<close> is a list of reals. The four members of \<open>BoundaryIntegral\<close> that hold
  \<open>std::function\<close> objects are fields of a record (named without the trailing underscore of
  the members \<open>evaluation_\<close>, \<open>evaluation_with_AD_\<close>, \<open>action_of_gradient_\<close> and
  \<open>element_gradient_\<close>). The kernels behind them share the
  derivative caches \<open>qf_derivatives\<close>, one per trial space, which live on the heap: a
  kernel takes the cache it captured as an argument, and \<open>evaluation_with_AD_[i]\<close>
  returns the new content of cache \<open>i\<close> beside the residual it writes to \<open>output_E\<close>.
\<close>

type_synonym Vector = "real list"

type_synonym derivative_cache = "real tensor list"

record BoundaryIntegral =
  evaluation :: "Vector list \<Rightarrow> Vector"
  evaluation_with_AD :: "(Vector list \<Rightarrow> Vector \<times> derivative_cache) list"
  action_of_gradient :: "(derivative_cache \<Rightarrow> Vector \<Rightarrow> Vector) list"
  element_gradient :: "(derivative_cache \<Rightarrow> Vector) list"

definition num_trial_spaces :: "BoundaryIntegral \<Rightarrow> nat" where
  "num_trial_spaces I = length (evaluation_with_AD I)"

text \<open>Which kernel a call of \<open>Mult\<close> runs.\<close>

datatype kernel_call = Evaluation | Evaluation_with_AD nat

text \<open>
  \<open>Mult(input_E, output_E, which)\<close>: the result is the kernel that ran, the content of
  \<open>output_E\<close> and the caches after the call. The source has two branches, \<open>which == -1\<close>
  and \<open>else\<close>. In the second it subscripts \<open>evaluation_with_AD_\<close>, a C array of
  \<open>num_trial_spaces\<close> entries, with the \<open>int\<close> \<open>which\<close>, and tests nothing. For
  \<open>0 <= which < num_trial_spaces\<close> that is the kernel of trial space \<open>which\<close>. For every
  other \<open>which\<close> the subscript is outside the array and the behaviour of the call is
  undefined: the model leaves its result unspecified there, so that nothing can be proved
  of it.
\<close>

definition Mult ::
  "BoundaryIntegral \<Rightarrow> derivative_cache list \<Rightarrow> Vector list \<Rightarrow> int
     \<Rightarrow> fault + (kernel_call \<times> Vector \<times> derivative_cache list)" where
  "Mult I qf_derivatives input_E which =
     (if which = - 1 then Inr (Evaluation, evaluation I input_E, qf_derivatives)
      else if 0 \<le> which \<and> nat which < num_trial_spaces I then
        (let (output_E, derivatives) = (evaluation_with_AD I ! nat which) input_E
         in Inr (Evaluation_with_AD (nat which), output_E,
                 qf_derivatives[nat which := derivatives]))
      else undefined)"

text \<open>
  \<open>GradientMult(input_E, output_E, which)\<close>, with \<open>which\<close> a \<open>size_t\<close>: the call
  \<open>action_of_gradient_[which](input_E, output_E)\<close>, whose kernel reads the cache of the trial
  space. The result is the content of \<open>output_E\<close> and the caches after the call. The
  subscript is unchecked here too, and the result for \<open>which >= num_trial_spaces\<close> is left
  unspecified.
\<close>

definition GradientMult ::
  "BoundaryIntegral \<Rightarrow> derivative_cache list \<Rightarrow> Vector \<Rightarrow> nat
     \<Rightarrow> fault + (Vector \<times> derivative_cache list)" where
  "GradientMult I qf_derivatives input_E which =
     (if which < length (action_of_gradient I) then
        Inr ((action_of_gradient I ! which) (qf_derivatives ! which) input_E, qf_derivatives)
      else undefined)"

section \<open>Dual numbers over tensors\<close>

text \<open>
  Modelled from the spec: the struct \<open>dual\<close> of \<open>dual.hpp\<close>, which is not among the sources.
  It "pairs a primal value with its derivative"; the code at hand reads and writes its
  members \<open>value\<close> (a \<open>double\<close>) and \<open>gradient\<close> (of the type parameter), and value-initialises
  both.
\<close>

record 'g dual =
  "value" :: real
  gradient :: 'g

text \<open>
  Modelled from the spec: \<open>for_constexpr<n...>(f)\<close> of \<open>detail/metaprogramming.hpp\<close>, which
  is not among the sources. As its callers use it, it calls \<open>f(i...)\<close> once for every
  multi-index \<open>i...\<close> with \<open>0 <= i_k < n_k\<close>; the order taken here is the one of the nested
  loops of \<open>make_tensor\<close>, last index fastest.
\<close>

fun multi_indices :: "nat list \<Rightarrow> nat list list" where
  "multi_indices [] = [[]]"
| "multi_indices (n # ns) = concat (map (\<lambda>i. map ((#) i) (multi_indices ns)) [0..<n])"

definition for_constexpr :: "nat list \<Rightarrow> (nat list \<Rightarrow> 's \<Rightarrow> 's) \<Rightarrow> 's \<Rightarrow> 's" where
  "for_constexpr n f s = fold f (multi_indices n) s"

text \<open>
  \<open>make_dual(const tensor<double, n...>& A)\<close>: starting from the value-initialised
  \<open>tensor<dual<tensor<double, n...>>, n...> A_dual{}\<close>, the two assignments
  \<open>A_dual(i...).value = A(i...)\<close> and \<open>A_dual(i...).gradient(i...) = 1.0\<close> for every \<open>i...\<close>.
\<close>

definition make_dual :: "nat list \<Rightarrow> real tensor \<Rightarrow> real tensor dual tensor" where
  "make_dual n A =
     for_constexpr n
       (\<lambda>i A_dual.
          let A_dual = tensor_put A_dual i
                (Scalar ((entry (tensor_at A_dual i))\<lparr>value := entry (tensor_at A i)\<rparr>));
              A_dual = tensor_put A_dual i
                (Scalar ((entry (tensor_at A_dual i))
                   \<lparr>gradient := tensor_put (gradient (entry (tensor_at A_dual i))) i (Scalar 1)\<rparr>))
          in A_dual)
       (fill n \<lparr>value = 0, gradient = fill n 0\<rparr>)"

text \<open>\<open>get_value(const tensor<dual<T>, n...>& arg)\<close>: \<open>value(i...) = arg(i...).value\<close>.\<close>

definition get_value :: "nat list \<Rightarrow> 'g dual tensor \<Rightarrow> real tensor" where
  "get_value n arg =
     for_constexpr n (\<lambda>i v. tensor_put v i (Scalar (value (entry (tensor_at arg i))))) (fill n 0)"

text \<open>
  \<open>get_gradient(const tensor<dual<tensor<double, m...>>, n...>& arg)\<close>: into
  \<open>tensor<double, n..., m...> g{}\<close>, the assignments \<open>g(i...) = arg(i...).gradient\<close>.
\<close>

definition get_gradient :: "nat list \<Rightarrow> nat list \<Rightarrow> real tensor dual tensor \<Rightarrow> real tensor" where
  "get_gradient n m arg =
     for_constexpr n (\<lambda>i g. tensor_put g i (gradient (entry (tensor_at arg i)))) (fill (n @ m) 0)"

text \<open>The overloads of \<open>get_gradient\<close> for values that carry no derivative.\<close>

definition get_gradient_double :: "real \<Rightarrow> zero" where
  "get_gradient_double arg = Zero"

definition get_gradient_tensor :: "real tensor \<Rightarrow> zero" where
  "get_gradient_tensor arg = Zero"

section \<open>Sums, scalings and contractions\<close>

text \<open>
  \<open>operator+\<close> of two tensors of one shape (\<open>C[i] = A[i] + B[i]\<close>) and \<open>operator*\<close> of a
  scalar and a tensor (\<open>C[i] = scale * A[i]\<close>) recurse on the rows; they are written out
  for the ranks at which \<open>dot\<close> uses them. \<open>C\<close> starts value-initialised.
\<close>

definition plus_tensor1 :: "nat \<Rightarrow> real list \<Rightarrow> real list \<Rightarrow> real list" where
  "plus_tensor1 m A B = fold (\<lambda>i C. C[i := A ! i + B ! i]) [0..<m] (replicate m 0)"

definition plus_tensor2 :: "nat \<Rightarrow> nat \<Rightarrow> real list list \<Rightarrow> real list list \<Rightarrow> real list list" where
  "plus_tensor2 m n A B =
     fold (\<lambda>i C. C[i := plus_tensor1 n (A ! i) (B ! i)]) [0..<m] (replicate m (replicate n 0))"

definition plus_tensor3 ::
  "nat \<Rightarrow> nat \<Rightarrow> nat \<Rightarrow> real list list list \<Rightarrow> real list list list \<Rightarrow> real list list list" where
  "plus_tensor3 m n p A B =
     fold (\<lambda>i C. C[i := plus_tensor2 n p (A ! i) (B ! i)]) [0..<m]
       (replicate m (replicate n (replicate p 0)))"

definition times_scalar_tensor1 :: "nat \<Rightarrow> real \<Rightarrow> real list \<Rightarrow> real list" where
  "times_scalar_tensor1 m scale A = fold (\<lambda>i C. C[i := scale * A ! i]) [0..<m] (replicate m 0)"

definition times_scalar_tensor2 :: "nat \<Rightarrow> nat \<Rightarrow> real \<Rightarrow> real list list \<Rightarrow> real list list" where
  "times_scalar_tensor2 m n scale A =
     fold (\<lambda>i C. C[i := times_scalar_tensor1 n scale (A ! i)]) [0..<m] (replicate m (replicate n 0))"

definition times_scalar_tensor3 ::
  "nat \<Rightarrow> nat \<Rightarrow> nat \<Rightarrow> real \<Rightarrow> real list list list \<Rightarrow> real list list list" where
  "times_scalar_tensor3 m n p scale A =
     fold (\<lambda>i C. C[i := times_scalar_tensor2 n p scale (A ! i)]) [0..<m]
       (replicate m (replicate n (replicate p 0)))"

text \<open>\<open>dot\<close>, matrix . matrix: \<open>AB[i][j] = AB[i][j] + A[i][k] * B[k][j]\<close>.\<close>

definition dot_matrix_matrix ::
  "nat \<Rightarrow> nat \<Rightarrow> nat \<Rightarrow> real list list \<Rightarrow> real list list \<Rightarrow> real list list" where
  "dot_matrix_matrix m n p A B =
     fold (\<lambda>i. fold (\<lambda>j. fold (\<lambda>k AB. AB[i := (AB ! i)[j := AB ! i ! j + A ! i ! k * B ! k ! j]])
                              [0..<n]) [0..<p]) [0..<m]
       (replicate m (replicate p 0))"

text \<open>vector . vector: \<open>AB = AB + A[i] * B[i]\<close>.\<close>

definition dot_vector_vector :: "nat \<Rightarrow> real list \<Rightarrow> real list \<Rightarrow> real" where
  "dot_vector_vector m A B = fold (\<lambda>i AB. AB + A ! i * B ! i) [0..<m] 0"

text \<open>vector . matrix: \<open>AB[i] = AB[i] + A[j] * B[j][i]\<close>.\<close>

definition dot_vector_matrix :: "nat \<Rightarrow> nat \<Rightarrow> real list \<Rightarrow> real list list \<Rightarrow> real list" where
  "dot_vector_matrix m n A B =
     fold (\<lambda>i. fold (\<lambda>j AB. AB[i := AB ! i + A ! j * B ! j ! i]) [0..<m]) [0..<n] (replicate n 0)"

text \<open>vector . tensor3D and vector . tensor4D: \<open>AB = AB + A[j] * B[j]\<close>.\<close>

definition dot_vector_tensor3 ::
  "nat \<Rightarrow> nat \<Rightarrow> nat \<Rightarrow> real list \<Rightarrow> real list list list \<Rightarrow> real list list" where
  "dot_vector_tensor3 m n p A B =
     fold (\<lambda>j AB. plus_tensor2 n p AB (times_scalar_tensor2 n p (A ! j) (B ! j))) [0..<m]
       (replicate n (replicate p 0))"

definition dot_vector_tensor4 ::
  "nat \<Rightarrow> nat \<Rightarrow> nat \<Rightarrow> nat \<Rightarrow> real list \<Rightarrow> real list list list list \<Rightarrow> real list list list" where
  "dot_vector_tensor4 m n p q A B =
     fold (\<lambda>j AB. plus_tensor3 n p q AB (times_scalar_tensor3 n p q (A ! j) (B ! j))) [0..<m]
       (replicate n (replicate p (replicate q 0)))"

text \<open>matrix . vector: \<open>AB[i] = AB[i] + A[i][j] * B[j]\<close>.\<close>

definition dot_matrix_vector :: "nat \<Rightarrow> nat \<Rightarrow> real list list \<Rightarrow> real list \<Rightarrow> real list" where
  "dot_matrix_vector m n A B =
     fold (\<lambda>i. fold (\<lambda>j AB. AB[i := AB ! i + A ! i ! j * B ! j]) [0..<n]) [0..<m] (replicate m 0)"

text \<open>3rd-order tensor . vector: \<open>AB[i][j] += A[i][j][k] * B[k]\<close>.\<close>

definition dot_tensor3_vector ::
  "nat \<Rightarrow> nat \<Rightarrow> nat \<Rightarrow> real list list list \<Rightarrow> real list \<Rightarrow> real list list" where
  "dot_tensor3_vector m n p A B =
     fold (\<lambda>i. fold (\<lambda>j. fold (\<lambda>k AB. AB[i := (AB ! i)[j := AB ! i ! j + A ! i ! j ! k * B ! k]])
                              [0..<p]) [0..<n]) [0..<m]
       (replicate m (replicate n 0))"

text \<open>The shapes of the static types \<open>tensor<T, m, n, p>\<close> and \<open>tensor<T, m, n, p, q>\<close>.\<close>

definition is_tensor3 :: "nat \<Rightarrow> nat \<Rightarrow> nat \<Rightarrow> 'a list list list \<Rightarrow> bool" where
  "is_tensor3 m n p A = (length A = m \<and> list_all (is_mat n p) A)"

definition is_tensor4 :: "nat \<Rightarrow> nat \<Rightarrow> nat \<Rightarrow> nat \<Rightarrow> 'a list list list list \<Rightarrow> bool" where
  "is_tensor4 m n p q A = (length A = m \<and> list_all (is_tensor3 n p q) A)"

section \<open>Inverse of a matrix\<close>

text \<open>\<open>DenseIdentity<dim>()\<close>: \<open>I[i][j] = (i == j)\<close> for every \<open>i\<close> and \<open>j\<close>.\<close>

definition DenseIdentity :: "nat \<Rightarrow> real list list" where
  "DenseIdentity d = make_tensor2 d d (\<lambda>i j. if i = j then 1 else 0)"

text \<open>
  The closed forms for \<open>tensor<double, 2, 2>\<close> and \<open>tensor<double, 3, 3>\<close>: every entry of the
  value-initialised \<open>invA\<close> is assigned once.
\<close>

definition inv2 :: "real list list \<Rightarrow> real list list" where
  "inv2 A =
     (let inv_detA = 1 / det2 A
      in [[A ! 1 ! 1 * inv_detA, - (A ! 0 ! 1) * inv_detA],
          [- (A ! 1 ! 0) * inv_detA, A ! 0 ! 0 * inv_detA]])"

definition inv3 :: "real list list \<Rightarrow> real list list" where
  "inv3 A =
     (let inv_detA = 1 / det3 A
      in [[(A ! 1 ! 1 * A ! 2 ! 2 - A ! 1 ! 2 * A ! 2 ! 1) * inv_detA,
           (A ! 0 ! 2 * A ! 2 ! 1 - A ! 0 ! 1 * A ! 2 ! 2) * inv_detA,
           (A ! 0 ! 1 * A ! 1 ! 2 - A ! 0 ! 2 * A ! 1 ! 1) * inv_detA],
          [(A ! 1 ! 2 * A ! 2 ! 0 - A ! 1 ! 0 * A ! 2 ! 2) * inv_detA,
           (A ! 0 ! 0 * A ! 2 ! 2 - A ! 0 ! 2 * A ! 2 ! 0) * inv_detA,
           (A ! 0 ! 2 * A ! 1 ! 0 - A ! 0 ! 0 * A ! 1 ! 2) * inv_detA],
          [(A ! 1 ! 0 * A ! 2 ! 1 - A ! 1 ! 1 * A ! 2 ! 0) * inv_detA,
           (A ! 0 ! 1 * A ! 2 ! 0 - A ! 0 ! 0 * A ! 2 ! 1) * inv_detA,
           (A ! 0 ! 0 * A ! 1 ! 1 - A ! 0 ! 1 * A ! 1 ! 0) * inv_detA]])"

text \<open>
  The general template, \<open>template <typename T, int n> tensor<T, n, n> inv(const tensor<T,
  n, n>& A)\<close>, is written as Gauss elimination with partial pivoting on the pair of \<open>A\<close> and
  \<open>B = DenseIdentity<n>()\<close>. Its parameter \<open>A\<close> is a reference to \<open>const\<close>, and its body
  assigns to \<open>A\<close> in three statements: \<open>swap(A[max_row], A[i])\<close>, where \<open>swap\<close> is the lambda
  \<open>[](auto& x, auto& y) { auto tmp = x; x = y; y = tmp; }\<close>; \<open>A[j] += c * A[i]\<close>, where
  \<open>operator+=\<close> takes its left operand by reference to non-\<open>const\<close>; and \<open>A[j][i] = 0\<close>.
  \<open>operator[]\<close> of a \<open>const\<close> tensor returns a reference to \<open>const\<close>, so none of the three
  is well-formed, whatever \<open>T\<close> and \<open>n\<close>: the template has no instance, and a call \<open>inv(A)\<close>
  that selects it has no value. (\<open>linear_solve\<close>, which runs the same elimination, takes
  \<open>A\<close> by value, "as they are mutated as part of the elimination".)
\<close>

definition inv_general :: "nat \<Rightarrow> real list list \<Rightarrow> fault + real list list" where
  "inv_general n A = Inl Assignment_to_const"

text \<open>
  Overload resolution: the two functions that are not templates are chosen for
  \<open>tensor<double, 2, 2>\<close> and \<open>tensor<double, 3, 3>\<close>, the template for every other \<open>n\<close>.
\<close>

definition inv :: "nat \<Rightarrow> real list list \<Rightarrow> fault + real list list" where
  "inv n A = (if n = 2 then Inr (inv2 A) else if n = 3 then Inr (inv3 A) else inv_general n A)"

text \<open>
  An invertible matrix, in the terms of the claim: some matrix is its inverse on both
  sides.
\<close>

definition invertible :: "nat \<Rightarrow> real list list \<Rightarrow> bool" where
  "invertible n A =
     (\<exists>C. is_mat n n C \<and> dot_matrix_matrix n n n A C = DenseIdentity n
          \<and> dot_matrix_matrix n n n C A = DenseIdentity n)"

section \<open>Tensor arithmetic at every rank\<close>

text \<open>
  \<open>operator+\<close>, \<open>operator-\<close> of two tensors of one shape and \<open>operator*\<close> of a scalar and a
  tensor, as the variadic templates define them: \<open>C[i] = A[i] + B[i]\<close>, \<open>C[i] = A[i] - B[i]\<close>
  and \<open>C[i] = scale * A[i]\<close> for \<open>i = 0, ..., m - 1\<close>, down to the entries.
\<close>

fun plus_tensor :: "nat list \<Rightarrow> real tensor \<Rightarrow> real tensor \<Rightarrow> real tensor" where
  "plus_tensor [] A B = Scalar (entry A + entry B)"
| "plus_tensor (m # n) A B = Tensor (map (\<lambda>i. plus_tensor n (data A ! i) (data B ! i)) [0..<m])"

fun minus_tensor :: "nat list \<Rightarrow> real tensor \<Rightarrow> real tensor \<Rightarrow> real tensor" where
  "minus_tensor [] A B = Scalar (entry A - entry B)"
| "minus_tensor (m # n) A B = Tensor (map (\<lambda>i. minus_tensor n (data A ! i) (data B ! i)) [0..<m])"

fun times_scalar_tensor :: "nat list \<Rightarrow> real \<Rightarrow> real tensor \<Rightarrow> real tensor" where
  "times_scalar_tensor [] scale A = Scalar (scale * entry A)"
| "times_scalar_tensor (m # n) scale A =
     Tensor (map (\<lambda>i. times_scalar_tensor n scale (data A ! i)) [0..<m])"

text \<open>
  \<open>chain_rule(const tensor<double, n...>& df_dx, const tensor<double, n...>& dx)\<close>: the
  inner product, \<open>total += df_dx(i...) * dx(i...)\<close> for every \<open>i...\<close>.
\<close>

definition chain_rule :: "nat list \<Rightarrow> real tensor \<Rightarrow> real tensor \<Rightarrow> real" where
  "chain_rule n df_dx dx =
     for_constexpr n (\<lambda>i total. total + entry (tensor_at df_dx i) * entry (tensor_at dx i)) 0"

text \<open>
  The overloads of \<open>chain_rule\<close> for a function whose value is a tensor:
  \<open>chain_rule(const tensor<double, m, n...>& df_dx, const tensor<double, n...>& dx)\<close> with
  \<open>total[i] = chain_rule(df_dx[i], dx)\<close>, and the one for \<open>tensor<double, m, n, p...>\<close> with
  \<open>total[i][j] = chain_rule(df_dx[i][j], dx)\<close>: one rank of the value at a time, down to
  the inner product. \<open>out\<close> is the shape of the value, \<open>out @ n\<close> that of \<open>df_dx\<close>.
\<close>

fun chain_rule_tensor :: "nat list \<Rightarrow> nat list \<Rightarrow> real tensor \<Rightarrow> real tensor \<Rightarrow> real tensor" where
  "chain_rule_tensor [] n df_dx dx = Scalar (chain_rule n df_dx dx)"
| "chain_rule_tensor (m # out) n df_dx dx =
     Tensor (map (\<lambda>i. chain_rule_tensor out n (data df_dx ! i) dx) [0..<m])"

section \<open>Q-functions and the kernels of an integral\<close>

text \<open>
  Modelled from the spec: the arithmetic of dual numbers, of \<open>dual.hpp\<close>, which is not among
  the sources. "For every arithmetic operator on \<open>dual<T>\<close>, the result's value is the
  ordinary operator applied to both values, and the result's gradient is the operator's
  analytic partial derivative applied to the operand gradients (product rule for
  multiplication, quotient rule for division)". The gradients are tensors of shape \<open>n\<close>. A
  \<open>double\<close> that meets a dual number counts as a dual number whose gradient is zero.
\<close>

definition dual_of_double :: "nat list \<Rightarrow> real \<Rightarrow> real tensor dual" where
  "dual_of_double n a = \<lparr>value = a, gradient = fill n 0\<rparr>"

definition dual_plus :: "nat list \<Rightarrow> real tensor dual \<Rightarrow> real tensor dual \<Rightarrow> real tensor dual" where
  "dual_plus n a b =
     \<lparr>value = value a + value b, gradient = plus_tensor n (gradient a) (gradient b)\<rparr>"

definition dual_minus :: "nat list \<Rightarrow> real tensor dual \<Rightarrow> real tensor dual \<Rightarrow> real tensor dual" where
  "dual_minus n a b =
     \<lparr>value = value a - value b, gradient = minus_tensor n (gradient a) (gradient b)\<rparr>"

definition dual_times :: "nat list \<Rightarrow> real tensor dual \<Rightarrow> real tensor dual \<Rightarrow> real tensor dual" where
  "dual_times n a b =
     \<lparr>value = value a * value b,
      gradient = plus_tensor n (times_scalar_tensor n (value b) (gradient a))
                   (times_scalar_tensor n (value a) (gradient b))\<rparr>"

definition dual_divide :: "nat list \<Rightarrow> real tensor dual \<Rightarrow> real tensor dual \<Rightarrow> real tensor dual" where
  "dual_divide n a b =
     \<lparr>value = value a / value b,
      gradient = minus_tensor n (times_scalar_tensor n (1 / value b) (gradient a))
                   (times_scalar_tensor n (value a / (value b * value b)) (gradient b))\<rparr>"

text \<open>
  Modelled from the spec: a supported operator. The operators of \<open>tensor.hpp\<close> and
  \<open>dual.hpp\<close> are function templates and overload sets, which the compiler instantiates for
  the types of the arguments: \<open>on_double\<close> is what an operator computes from tensors of
  doubles, \<open>on_dual n\<close> what it computes from tensors of dual numbers whose gradients have
  shape \<open>n\<close>. The shapes of the arguments and of the result belong to the static types; a
  scalar has the empty shape. Which operators there are is left open.
\<close>

record operator =
  argument_shapes :: "nat list list"
  result_shape :: "nat list"
  on_double :: "real tensor list \<Rightarrow> real tensor"
  on_dual :: "nat list \<Rightarrow> real tensor dual tensor list \<Rightarrow> real tensor dual tensor"

text \<open>
  Modelled from the spec: the contract of an operator on dual numbers, "the result's value
  is the ordinary operator applied to both values", for arguments of the operator's
  shapes.
\<close>

definition keeps_values :: "nat list \<Rightarrow> operator \<Rightarrow> bool" where
  "keeps_values n f =
     (\<forall>args. list_all2 has_shape (argument_shapes f) args \<longrightarrow>
        has_shape (result_shape f) (on_dual f n args)
        \<and> get_value (result_shape f) (on_dual f n args)
            = on_double f (map2 get_value (argument_shapes f) args))"

text \<open>
  Four operators of \<open>dual.hpp\<close>, \<open>+\<close>, \<open>-\<close>, \<open>*\<close> and \<open>/\<close> of two scalars, and one of
  \<open>tensor.hpp\<close>, \<open>dot\<close> of two vectors: \<open>decltype(S{} * T{}) AB{}\<close> and \<open>AB = AB + A[i] *
  B[i]\<close> for \<open>i = 0, ..., m - 1\<close>. With \<open>S\<close> and \<open>T\<close> dual numbers, \<open>+\<close> and \<open>*\<close> are theirs
  and \<open>AB{}\<close> is the dual number of value and gradient zero.
\<close>

definition scalar_operator ::
  "(real \<Rightarrow> real \<Rightarrow> real) \<Rightarrow> (nat list \<Rightarrow> real tensor dual \<Rightarrow> real tensor dual \<Rightarrow> real tensor dual)
     \<Rightarrow> operator" where
  "scalar_operator f f_dual =
     \<lparr>argument_shapes = [[], []], result_shape = [],
      on_double = (\<lambda>args. Scalar (f (entry (args ! 0)) (entry (args ! 1)))),
      on_dual = (\<lambda>n args. Scalar (f_dual n (entry (args ! 0)) (entry (args ! 1))))\<rparr>"

definition plus_operator :: operator where
  "plus_operator = scalar_operator (+) dual_plus"

definition minus_operator :: operator where
  "minus_operator = scalar_operator (-) dual_minus"

definition times_operator :: operator where
  "times_operator = scalar_operator (*) dual_times"

definition divide_operator :: operator where
  "divide_operator = scalar_operator (/) dual_divide"

definition dot_vector_vector_dual ::
  "nat list \<Rightarrow> nat \<Rightarrow> real tensor dual list \<Rightarrow> real tensor dual list \<Rightarrow> real tensor dual" where
  "dot_vector_vector_dual n m A B =
     fold (\<lambda>i AB. dual_plus n AB (dual_times n (A ! i) (B ! i))) [0..<m] (dual_of_double n 0)"

definition dot_operator :: "nat \<Rightarrow> operator" where
  "dot_operator m =
     \<lparr>argument_shapes = [[m], [m]], result_shape = [],
      on_double = (\<lambda>args. Scalar (dot_vector_vector m (map entry (data (args ! 0)))
                                     (map entry (data (args ! 1))))),
      on_dual = (\<lambda>n args. Scalar (dot_vector_vector_dual n m (map entry (data (args ! 0)))
                                      (map entry (data (args ! 1)))))\<rparr>"

text \<open>
  Modelled from the spec: the q-function, "a pure function mapping (position, possibly
  normal, primal-or-dual field values) to an integrand value", which "must be
  differentiable when invoked with dual-number arguments (i.e., implemented only in terms
  of the supported tensor/dual operators)". It is an expression over the position, the
  normal and the values of the trial fields, each a tensor, in which every other node is a
  constant tensor of a given shape or the call of an operator. Its value is a tensor of
  any shape.
\<close>

datatype q_function =
    Constant "nat list" "real tensor"
  | Position
  | Normal
  | Trial nat
  | Apply operator "q_function list"

text \<open>The call of the q-function on values of type \<open>double\<close>.\<close>

fun qf_call :: "real list \<Rightarrow> real list \<Rightarrow> (nat \<Rightarrow> real tensor) \<Rightarrow> q_function \<Rightarrow> real tensor" where
  "qf_call x nrm u (Constant s c) = c"
| "qf_call x nrm u Position = Tensor (map Scalar x)"
| "qf_call x nrm u Normal = Tensor (map Scalar nrm)"
| "qf_call x nrm u (Trial k) = u k"
| "qf_call x nrm u (Apply f args) = on_double f (map (qf_call x nrm u) args)"

text \<open>
  The call with the value of trial field \<open>which\<close>, of shape \<open>n\<close>, replaced by the tensor of
  dual numbers \<open>u_dual\<close>. Every operator is then called on dual numbers: a tensor of
  doubles enters as the tensor of dual numbers with these values and gradient zero.
\<close>

definition double_to_dual :: "nat list \<Rightarrow> real tensor \<Rightarrow> real tensor dual tensor" where
  "double_to_dual n A = map_tensor (dual_of_double n) A"

fun qf_call_dual ::
  "nat \<Rightarrow> nat list \<Rightarrow> real tensor dual tensor \<Rightarrow> real list \<Rightarrow> real list \<Rightarrow> (nat \<Rightarrow> real tensor)
     \<Rightarrow> q_function \<Rightarrow> real tensor dual tensor" where
  "qf_call_dual which n u_dual x nrm u (Constant s c) = double_to_dual n c"
| "qf_call_dual which n u_dual x nrm u Position = double_to_dual n (Tensor (map Scalar x))"
| "qf_call_dual which n u_dual x nrm u Normal = double_to_dual n (Tensor (map Scalar nrm))"
| "qf_call_dual which n u_dual x nrm u (Trial k) =
     (if k = which then u_dual else double_to_dual n (u k))"
| "qf_call_dual which n u_dual x nrm u (Apply f args) =
     on_dual f n (map (qf_call_dual which n u_dual x nrm u) args)"



text \<open>
  Modelled from the spec: what the kernels are built from, which the sources only pass on
  (\<open>KernelConfig\<close>, \<open>J\<close>, \<open>X\<close>, \<open>N\<close>, \<open>num_elements\<close>; the finite element spaces are "external
  collaborators"). \<open>geometric_factor e q\<close> is "Jacobian determinant x quadrature weight at a
  point", from \<open>J\<close>; \<open>coordinates e q\<close> and \<open>normals e q\<close> are the position and the unit normal
  there, from \<open>X\<close> and \<open>N\<close>; \<open>interpolate k\<close> gives the value of trial field \<open>k\<close> at a quadrature point of an
  element from the "per-element DOF values", a tensor of shape \<open>trial_shapes ! k\<close>; and
  \<open>test_function i q\<close> is the value of the test function of residual entry \<open>i\<close> there, a
  tensor of the shape \<open>test_shape\<close> of the integrand's values.
\<close>

record kernel_config =
  num_elements :: nat
  quadrature_points_per_element :: nat
  test_dofs :: nat
  test_shape :: "nat list"
  trial_shapes :: "nat list list"
  geometric_factor :: "nat \<Rightarrow> nat \<Rightarrow> real"
  coordinates :: "nat \<Rightarrow> nat \<Rightarrow> real list"
  normals :: "nat \<Rightarrow> nat \<Rightarrow> real list"
  interpolate :: "nat \<Rightarrow> Vector \<Rightarrow> nat \<Rightarrow> nat \<Rightarrow> real tensor"
  test_function :: "nat \<Rightarrow> nat \<Rightarrow> real tensor"

text \<open>
  Modelled from the spec: a kernel "produces per-element DOF residual contributions,
  weighted by quadrature weight and Jacobian determinant". \<open>integrate cfg f\<close> does so for the
  values \<open>f e q\<close> of an integrand at the quadrature points; a value meets a test function in
  the full contraction of the two, the inner product that \<open>chain_rule\<close> computes.
\<close>

definition integrate :: "kernel_config \<Rightarrow> (nat \<Rightarrow> nat \<Rightarrow> real tensor) \<Rightarrow> Vector" where
  "integrate cfg f =
     concat (map (\<lambda>e. map (\<lambda>i. sum_list (map (\<lambda>q. geometric_factor cfg e q
                                                    * chain_rule (test_shape cfg) (f e q) (test_function cfg i q))
                                              [0..<quadrature_points_per_element cfg]))
                         [0..<test_dofs cfg])
               [0..<num_elements cfg])"

text \<open>
  Modelled from the spec: plain evaluation "applies the integrand at every (element,
  quadrature point) using only primal values".
\<close>

definition evaluation_kernel :: "kernel_config \<Rightarrow> q_function \<Rightarrow> Vector list \<Rightarrow> Vector" where
  "evaluation_kernel cfg qf U =
     integrate cfg (\<lambda>e q. qf_call (coordinates cfg e q) (normals cfg e q) (\<lambda>k. interpolate cfg k (U ! k) e q) qf)"

text \<open>
  Modelled from the spec: AD-evaluation is "identical, but the selected trial field's input
  is wrapped via \<open>make_dual\<close> before the call; the primal part still produces the residual,
  while the gradient part is written into that trial field's derivative cache". The two
  parts are those that \<open>get_value\<close> and \<open>get_gradient\<close> read. The cache is indexed by
  (element index, quadrature-point index).
\<close>

definition qf_with_AD ::
  "nat \<Rightarrow> kernel_config \<Rightarrow> q_function \<Rightarrow> Vector list \<Rightarrow> nat \<Rightarrow> nat \<Rightarrow> real tensor dual tensor" where
  "qf_with_AD which cfg qf U e q =
     (let n = trial_shapes cfg ! which;
          u = (\<lambda>k. interpolate cfg k (U ! k) e q)
      in qf_call_dual which n (make_dual n (u which)) (coordinates cfg e q) (normals cfg e q) u qf)"

definition evaluation_kernel_with_AD ::
  "nat \<Rightarrow> kernel_config \<Rightarrow> q_function \<Rightarrow> Vector list \<Rightarrow> Vector \<times> derivative_cache" where
  "evaluation_kernel_with_AD which cfg qf U =
     (integrate cfg (\<lambda>e q. get_value (test_shape cfg) (qf_with_AD which cfg qf U e q)),
      concat (map (\<lambda>e. map (\<lambda>q. get_gradient (test_shape cfg) (trial_shapes cfg ! which)
                                   (qf_with_AD which cfg qf U e q))
                          [0..<quadrature_points_per_element cfg])
                [0..<num_elements cfg]))"

text \<open>
  Modelled from the spec: action-of-gradient "reads the derivative cache and, for a given
  direction vector, computes the Jacobian-vector product at each quadrature point,
  assembling into a per-element residual-shaped output".
\<close>

definition action_of_gradient_kernel ::
  "nat \<Rightarrow> kernel_config \<Rightarrow> derivative_cache \<Rightarrow> Vector \<Rightarrow> Vector" where
  "action_of_gradient_kernel which cfg qf_derivatives dU =
     integrate cfg (\<lambda>e q. chain_rule_tensor (test_shape cfg) (trial_shapes cfg ! which)
                             (qf_derivatives ! (e * quadrature_points_per_element cfg + q))
                             (interpolate cfg which dU e q))"

text \<open>
  Modelled from the spec: element-gradient "reads the derivative cache and assembles, for
  each element, the dense local Jacobian block (test-DOF x trial-DOF)"; column \<open>j\<close> of the
  block is the action of the gradient on trial degree of freedom \<open>j\<close>, \<open>trial_dofs\<close> of them.
\<close>

definition element_gradient_kernel ::
  "nat \<Rightarrow> nat \<Rightarrow> kernel_config \<Rightarrow> derivative_cache \<Rightarrow> Vector" where
  "element_gradient_kernel which trial_dofs cfg qf_derivatives =
     concat (map (\<lambda>j. action_of_gradient_kernel which cfg qf_derivatives
                         ((replicate trial_dofs 0)[j := 1]))
               [0..<trial_dofs])"

text \<open>
  The constructor, for \<open>exec == ExecutionSpace::CPU\<close>: \<open>evaluation_\<close> and, for every trial
  space \<open>i\<close>, \<open>evaluation_with_AD_[i]\<close>, \<open>action_of_gradient_[i]\<close> and \<open>element_gradient_[i]\<close>
  around the cache \<open>qf_derivatives\<close> allocated for \<open>i\<close>, of \<open>num_elements *
  quadrature_points_per_element\<close> entries of the type of the gradient of the q-function's
  value. Modelled from the spec: the allocation by \<open>make_shared_array\<close>, which is not among
  the sources; the derivative data are "zero-initialized" before any AD-evaluation pass.
\<close>

definition BoundaryIntegral_init ::
  "kernel_config \<Rightarrow> nat \<Rightarrow> q_function \<Rightarrow> BoundaryIntegral \<times> derivative_cache list" where
  "BoundaryIntegral_init cfg trial_dofs qf =
     (\<lparr>evaluation = evaluation_kernel cfg qf,
       evaluation_with_AD =
         map (\<lambda>i. evaluation_kernel_with_AD i cfg qf) [0..<length (trial_shapes cfg)],
       action_of_gradient =
         map (\<lambda>i. action_of_gradient_kernel i cfg) [0..<length (trial_shapes cfg)],
       element_gradient =
         map (\<lambda>i. element_gradient_kernel i trial_dofs cfg) [0..<length (trial_shapes cfg)]\<rparr>,
      map (\<lambda>i. replicate (num_elements cfg * quadrature_points_per_element cfg)
                  (fill (test_shape cfg @ trial_shapes cfg ! i) 0))
        [0..<length (trial_shapes cfg)])"

text \<open>
  \<open>ComputeElementGradients(K_b)\<close> has no parameter \<open>which\<close>; its body is the call
  \<open>element_gradient_(K_b)\<close>. The member \<open>element_gradient_\<close> is the array of the kernels, one
  for every trial space: the call names none of them, and an array cannot be called.
\<close>

definition ComputeElementGradients ::
  "BoundaryIntegral \<Rightarrow> derivative_cache list \<Rightarrow> fault + (Vector \<times> derivative_cache list)" where
  "ComputeElementGradients I qf_derivatives = Inl Not_callable"

text \<open>
  An integral to run the kernels on: one element with two quadrature points, one trial
  field with values of shape \<open>(1)\<close>, a scalar integrand, and the q-function
  \<open>f(u) = dot(u, u)\<close>.
\<close>

definition example_config :: kernel_config where
  "example_config =
     \<lparr>num_elements = 1, quadrature_points_per_element = 2, test_dofs = 2, test_shape = [],
      trial_shapes = [[1]],
      geometric_factor = (\<lambda>e q. 1 / 2), coordinates = (\<lambda>e q. [0]), normals = (\<lambda>e q. [1]),
      interpolate = (\<lambda>k v e q. Tensor [Scalar (v ! q)]),
      test_function = (\<lambda>i q. Scalar (if i = q then 1 else 0))\<rparr>"

definition example_integral :: "BoundaryIntegral \<times> derivative_cache list" where
  "example_integral = BoundaryIntegral_init example_config 2 (Apply (dot_operator 1) [Trial 0, Trial 0])"

section \<open>Loops\<close>

lemma fold_upt_invariant:
  assumes "P a s" and "a \<le> b"
    and "\<And>k t. a \<le> k \<Longrightarrow> k < b \<Longrightarrow> P k t \<Longrightarrow> P (Suc k) (f k t)"
  shows "P b (fold f [a..<b] s)"
  using assms(2,1,3)
proof (induction b)
  case 0
  then show ?case by simp
next
  case (Suc b)
  show ?case
  proof (cases "a = Suc b")
    case True
    with Suc.prems show ?thesis by simp
  next
    case False
    with Suc.prems have le: "a \<le> b" by simp
    have "P b (fold f [a..<b] s)"
      using Suc.IH [OF le Suc.prems(2)] Suc.prems(3) by simp
    with le Suc.prems(3) show ?thesis by simp
  qed
qed

lemma fold_add_sum:
  "fold (\<lambda>i (acc::real). acc + g i) [a..<b] s = s + (\<Sum>i = a..<b. g i)"
proof (cases "a \<le> b")
  case True
  show ?thesis
    by (rule fold_upt_invariant [where P = "\<lambda>k t. t = s + (\<Sum>i = a..<k. g i)"])
      (use True in \<open>simp_all add: sum.atLeastLessThan_Suc\<close>)
next
  case False
  then show ?thesis by simp
qed

section \<open>Trace and deviator\<close>

lemma tr_sum: "tr n A = (\<Sum>i<n. A ! i ! i)"
  by (simp add: tr_def fold_add_sum lessThan_atLeast0)

lemma dev_loop:
  fixes d :: real
  assumes "is_mat n n A"
  defines "f \<equiv> \<lambda>i devA. devA[i := (devA ! i)[i := devA ! i ! i - d]]"
  shows "is_mat n n (fold f [0..<n] A)"
    and "\<forall>r<n. \<forall>c<n. fold f [0..<n] A ! r ! c = A ! r ! c - (if r = c then d else 0)"
proof -
  let ?P = "\<lambda>k D. is_mat n n D \<and> k \<le> n \<and>
      (\<forall>r<n. \<forall>c<n. D ! r ! c = A ! r ! c - (if r = c \<and> r < k then d else 0))"
  have "?P n (fold f [0..<n] A)"
  proof (rule fold_upt_invariant [where P = ?P])
    show "?P 0 A" using assms(1) by simp
    show "0 \<le> n" by simp
  next
    fix k t assume k: "0 \<le> k" "k < n" and P: "?P k t"
    from P have len: "length t = n" and rows: "\<And>r. r < n \<Longrightarrow> length (t ! r) = n"
      by (auto simp: is_mat_def list_all_length)
    have "is_mat n n (f k t)"
      using len rows k by (auto simp: f_def is_mat_def list_all_length nth_list_update)
    moreover have "\<forall>r<n. \<forall>c<n. f k t ! r ! c = A ! r ! c - (if r = c \<and> r < Suc k then d else 0)"
      using P len rows k by (auto simp: f_def nth_list_update less_Suc_eq)
    ultimately show "?P (Suc k) (f k t)" using k by simp
  qed
  then show "is_mat n n (fold f [0..<n] A)"
    and "\<forall>r<n. \<forall>c<n. fold f [0..<n] A ! r ! c = A ! r ! c - (if r = c then d else 0)"
    by simp_all
qed

lemma dev_entry:
  assumes "is_mat n n A" "r < n" "c < n"
  shows "dev n A ! r ! c = A ! r ! c - (if r = c then tr n A / real n else 0)"
  using dev_loop(2) [OF assms(1), of "tr n A / real n"] assms(2,3) by (simp add: dev_def)

text \<open>
  Claim C10. For every \<open>n \<times> n\<close> matrix \<open>A\<close>, the deviator \<open>dev(A)\<close> has trace zero in exact
  arithmetic: \<open>dev\<close> subtracts \<open>tr(A) / n\<close> from each of the \<open>n\<close> diagonal entries and
  leaves every other entry as it is.
\<close>

theorem dev_trace_free:
  assumes "is_mat n n A"
  shows "tr n (dev n A) = 0
    \<and> (\<forall>r<n. \<forall>c<n. dev n A ! r ! c = A ! r ! c - (if r = c then tr n A / real n else 0))"
proof -
  have "tr n (dev n A) = (\<Sum>i<n. A ! i ! i - tr n A / real n)"
    by (simp add: tr_sum [of n "dev n A"] dev_entry [OF assms])
  also have "\<dots> = (\<Sum>i<n. A ! i ! i) - real n * (tr n A / real n)"
    by (simp add: sum_subtractf)
  also have "\<dots> = 0"
    by (cases "n = 0") (simp_all add: tr_sum)
  finally show ?thesis
    using dev_entry [OF assms] by simp
qed

theorem dev_trace_free_witness:
  "is_mat 2 2 [[1, 2], [3, 4 :: real]] \<and> tr 2 (dev 2 [[1, 2], [3, 4]]) = 0
    \<and> dev 2 [[1, 2], [3, 4]] = [[- 3 / 2, 2], [3, 3 / 2]]"
proof -
  have shape: "is_mat 2 2 [[1, 2], [3, 4 :: real]]"
    by (simp add: is_mat_def)
  have "dev 2 [[1, 2], [3, 4]] = [[- 3 / 2, 2], [3, 3 / 2]]"
    by code_simp
  with shape dev_trace_free [OF shape] show ?thesis by simp
qed

section \<open>Symmetry and positive definiteness\<close>

text \<open>What the two overloads compute: symmetry within the tolerance, and no negative
  leading principal minor.\<close>

lemma is_symmetric_and_positive_definite2_iff:
  "is_symmetric_and_positive_definite2 A \<longleftrightarrow>
     is_symmetric 2 A default_tolerance \<and> 0 \<le> A ! 0 ! 0 \<and> 0 \<le> det2 A"
  by (auto simp: is_symmetric_and_positive_definite2_def)

lemma make_tensor2_nth:
  "i < n1 \<Longrightarrow> j < n2 \<Longrightarrow> make_tensor2 n1 n2 f ! i ! j = f i j"
  by (simp add: make_tensor2_def)

lemma is_symmetric_and_positive_definite3_iff:
  "is_symmetric_and_positive_definite3 A \<longleftrightarrow>
     is_symmetric 3 A default_tolerance \<and> 0 \<le> det3 A
     \<and> is_symmetric 2 (make_tensor2 2 2 (\<lambda>i j. A ! i ! j)) default_tolerance
     \<and> 0 \<le> A ! 0 ! 0 \<and> 0 \<le> A ! 0 ! 0 * A ! 1 ! 1 - A ! 0 ! 1 * A ! 1 ! 0"
  by (auto simp: is_symmetric_and_positive_definite3_def is_symmetric_and_positive_definite2_iff
      det2_def make_tensor2_nth Let_def)

text \<open>
  Claim C3. \<open>is_symmetric_and_positive_definite(A)\<close> is claimed to return true exactly when
  \<open>A\<close> is symmetric within the tolerance and every leading principal minor is strictly
  positive. The zero matrices are symmetric, all their leading principal minors are \<open>0\<close>,
  and both overloads return true on them: the tests \<open>A(0, 0) < 0.0\<close> and \<open>det(A) < 0.0\<close>
  reject negative minors only.
\<close>

theorem is_symmetric_and_positive_definite_zero_matrix:
  "is_symmetric_and_positive_definite2 [[0, 0], [0, 0]]
   \<and> \<not> 0 < [[0, 0], [0, 0 :: real]] ! 0 ! 0 \<and> \<not> 0 < det2 [[0, 0], [0, 0]]
   \<and> is_symmetric_and_positive_definite3 [[0, 0, 0], [0, 0, 0], [0, 0, 0]]
   \<and> \<not> 0 < det3 [[0, 0, 0], [0, 0, 0], [0, 0, 0]]"
  by code_simp

section \<open>The sentinel \<open>zero\<close> in arithmetic\<close>

text \<open>
  Claim C8. For every value \<open>x\<close>, a scalar or a tensor of any shape: \<open>zero + x == x\<close> and
  \<open>x + zero == x\<close>, \<open>zero * x == zero\<close> and \<open>x * zero == zero\<close>, and \<open>zero / x == zero\<close>.
  The same holds when \<open>x\<close> is \<open>zero\<close> itself, through the overloads for two sentinels.
\<close>

theorem zero_identity_and_absorbing:
  "plus_zero_T Zero x = x \<and> plus_T_zero x Zero = x
   \<and> times_zero_T Zero x = Zero \<and> times_T_zero x Zero = Zero
   \<and> divide_zero_T Zero x = Zero
   \<and> plus_zero_zero Zero Zero = Zero \<and> times_zero_zero Zero Zero = Zero"
  by (simp add: plus_zero_T_def plus_T_zero_def times_zero_T_def times_T_zero_def
      divide_zero_T_def plus_zero_zero_def times_zero_zero_def)

text \<open>Subtraction agrees with it: \<open>x - zero\<close> is \<open>x\<close>, and \<open>zero - x\<close> is \<open>-x\<close>.\<close>

lemma zero_in_subtraction:
  "minus_T_zero x Zero = x \<and> minus_zero_T Zero y = - y
   \<and> minus_zero_zero Zero Zero = Zero \<and> uminus_zero Zero = Zero"
  by (simp add: minus_T_zero_def minus_zero_T_def minus_zero_zero_def uminus_zero_def)

section \<open>Division of a scalar by a tensor\<close>

lemma fold_fault:
  "fold (\<lambda>i C. case C of Inl f \<Rightarrow> Inl f | Inr C' \<Rightarrow> g i C') xs (Inl f) = Inl f"
  by (induction xs) simp_all

text \<open>
  Whatever the operands, a call with a leading extent \<open>m > 0\<close> does not build a tensor: the
  first assignment \<open>C[0] = scale / A[0]\<close> already has no place to go to.
\<close>

lemma divide_scalar_tensor_faults:
  "0 < m \<Longrightarrow> \<exists>f. divide_scalar_tensor scale (m # n) A = Inl f"
proof (induction n arbitrary: m A)
  case Nil
  then have "[0..<m] = 0 # [1..<m]" by (simp add: upt_rec)
  then show ?case by (simp add: fold_fault)
next
  case (Cons n1 n)
  from Cons.prems have m: "[0..<m] = 0 # [1..<m]" by (simp add: upt_rec)
  show ?case
  proof (cases "n1 = 0")
    case True
    then show ?thesis using m by (simp add: fold_fault)
  next
    case False
    then obtain f where "divide_scalar_tensor scale (n1 # n) (data A ! 0) = Inl f"
      using Cons.IH [of n1 "data A ! 0"] by auto
    then show ?thesis using m by (simp add: fold_fault)
  qed
qed

text \<open>
  Claim C4. \<open>s / A\<close> is claimed to be a tensor of the shape of \<open>A\<close> with the entries
  \<open>s / A(I)\<close>, built by writes that stay inside the result. For \<open>s = 1\<close> and a
  \<open>tensor<double, 3, 2>\<close> the code declares the result as \<open>tensor<double, 2>\<close> and never
  completes it, while \<open>A / s\<close>, which declares \<open>tensor<double, 3, 2>\<close>, divides every entry.
\<close>

theorem divide_scalar_tensor_example:
  "divide_scalar_tensor 1 [3, 2]
     (Tensor [Tensor [Scalar 1, Scalar 2], Tensor [Scalar 3, Scalar 4], Tensor [Scalar 5, Scalar 6]])
     = Inl No_subscript
   \<and> divide_tensor_scalar [3, 2]
     (Tensor [Tensor [Scalar 1, Scalar 2], Tensor [Scalar 3, Scalar 4], Tensor [Scalar 5, Scalar 6]]) 2
     = Inr (Tensor [Tensor [Scalar (1 / 2), Scalar 1], Tensor [Scalar (3 / 2), Scalar 2],
                    Tensor [Scalar (5 / 2), Scalar 3]])"
  by code_simp

section \<open>The dispatch of \<open>Mult\<close>\<close>

text \<open>
  Claim C7. \<open>Mult(input, output, which)\<close> runs the plain evaluation kernel exactly when
  \<open>which == -1\<close>, and the kernel with derivatives of trial field number \<open>which\<close> whenever
  \<open>which >= 0\<close> is the number of a trial field, \<open>0 <= which < num_trial_spaces\<close>; the two
  branches are the only paths.
\<close>

theorem Mult_dispatch:
  assumes "which = - 1 \<or> (0 \<le> which \<and> which < int (num_trial_spaces I))"
  shows "(which = - 1 \<longrightarrow> Mult I qf_derivatives input_E which
        = Inr (Evaluation, evaluation I input_E, qf_derivatives))
   \<and> (0 \<le> which \<longrightarrow>
        Mult I qf_derivatives input_E which
        = Inr (Evaluation_with_AD (nat which),
               fst ((evaluation_with_AD I ! nat which) input_E),
               qf_derivatives[nat which := snd ((evaluation_with_AD I ! nat which) input_E)]))
   \<and> ((\<exists>output_E caches. Mult I qf_derivatives input_E which = Inr (Evaluation, output_E, caches))
        \<longleftrightarrow> which = - 1)"
  using assms by (auto simp: Mult_def split: prod.splits)

theorem Mult_dispatch_witness:
  "Mult \<lparr>evaluation = (\<lambda>U. [1]), evaluation_with_AD = [\<lambda>U. ([1], [Scalar 2])],
         action_of_gradient = [\<lambda>c dU. dU], element_gradient = [\<lambda>c. []]\<rparr> [[Scalar 0]] [[3]] (- 1)
     = Inr (Evaluation, [1], [[Scalar 0]])
   \<and> Mult \<lparr>evaluation = (\<lambda>U. [1]), evaluation_with_AD = [\<lambda>U. ([1], [Scalar 2])],
         action_of_gradient = [\<lambda>c dU. dU], element_gradient = [\<lambda>c. []]\<rparr> [[Scalar 0]] [[3]] 0
     = Inr (Evaluation_with_AD 0, [1], [[Scalar 2]])"
  using Mult_dispatch [of "- 1" "\<lparr>evaluation = (\<lambda>U. [1]), evaluation_with_AD = [\<lambda>U. ([1], [Scalar 2])],
         action_of_gradient = [\<lambda>c dU. dU], element_gradient = [\<lambda>c. []]\<rparr>" "[[Scalar 0]]" "[[3]]"]
    Mult_dispatch [of 0 "\<lparr>evaluation = (\<lambda>U. [1]), evaluation_with_AD = [\<lambda>U. ([1], [Scalar 2])],
         action_of_gradient = [\<lambda>c dU. dU], element_gradient = [\<lambda>c. []]\<rparr>" "[[Scalar 0]]" "[[3]]"]
  by (simp add: num_trial_spaces_def)

section \<open>Reading and writing entries of a tensor\<close>

lemma set_multi_indices: "set (multi_indices ns) = {I. list_all2 (<) I ns}"
proof (induction ns)
  case Nil
  then show ?case by auto
next
  case (Cons n ns)
  show ?case
  proof (intro set_eqI iffI)
    fix I assume "I \<in> set (multi_indices (n # ns))"
    then show "I \<in> {I. list_all2 (<) I (n # ns)}" using Cons.IH by auto
  next
    fix I assume "I \<in> {I. list_all2 (<) I (n # ns)}"
    then obtain i I' where "I = i # I'" "i < n" "list_all2 (<) I' ns"
      by (auto simp: list_all2_Cons2)
    then show "I \<in> set (multi_indices (n # ns))" using Cons.IH by auto
  qed
qed

lemma tensor_at_fill:
  "list_all2 (<) I ns \<Longrightarrow> tensor_at (fill (ns @ ms) x) (I @ K) = tensor_at (fill ms x) K"
proof (induction I arbitrary: ns)
  case Nil
  then show ?case by simp
next
  case (Cons i I)
  then obtain n ns' where "ns = n # ns'" "i < n" "list_all2 (<) I ns'"
    by (auto simp: list_all2_Cons1)
  with Cons.IH show ?case by simp
qed

lemma tensor_at_fill_entry:
  "list_all2 (<) I ns \<Longrightarrow> tensor_at (fill ns x) I = Scalar x"
  using tensor_at_fill [of I ns "[]" x "[]"] by simp

lemma has_shape_Cons:
  "has_shape (n # ns) A \<longleftrightarrow> (\<exists>xs. A = Tensor xs \<and> length xs = n \<and> (\<forall>k<n. has_shape ns (xs ! k)))"
  by (cases A) (auto simp: list_all_length)

lemma has_shape_fill: "has_shape ns (fill ns x)"
  by (induction ns) (simp_all add: list_all_length)

lemma has_shape_at:
  "list_all2 (<) I ns \<Longrightarrow> has_shape (ns @ ms) A \<Longrightarrow> has_shape ms (tensor_at A I)"
proof (induction I arbitrary: ns A)
  case Nil
  then show ?case by simp
next
  case (Cons i I)
  then obtain n ns' where ns: "ns = n # ns'" "i < n" "list_all2 (<) I ns'"
    by (auto simp: list_all2_Cons1)
  with Cons.prems obtain xs where "A = Tensor xs" "length xs = n" "has_shape (ns' @ ms) (xs ! i)"
    by (auto simp: has_shape_Cons)
  with Cons.IH ns show ?case by simp
qed

lemma has_shape_put:
  "list_all2 (<) I ns \<Longrightarrow> has_shape (ns @ ms) A \<Longrightarrow> has_shape ms v
     \<Longrightarrow> has_shape (ns @ ms) (tensor_put A I v)"
proof (induction I arbitrary: ns A)
  case Nil
  then show ?case by simp
next
  case (Cons i I)
  then obtain n ns' where ns: "ns = n # ns'" "i < n" "list_all2 (<) I ns'"
    by (auto simp: list_all2_Cons1)
  with Cons.prems obtain xs where A: "A = Tensor xs" "length xs = n"
      "\<And>k. k < n \<Longrightarrow> has_shape (ns' @ ms) (xs ! k)"
    by (auto simp: has_shape_Cons)
  have "has_shape (ns' @ ms) (tensor_put (xs ! i) I v)"
    using Cons.IH [OF ns(3) A(3) [OF ns(2)] Cons.prems(3)] .
  with A ns show ?case by (simp add: has_shape_Cons nth_list_update)
qed

lemma tensor_at_put_same:
  "list_all2 (<) I ns \<Longrightarrow> has_shape (ns @ ms) A \<Longrightarrow> tensor_at (tensor_put A I v) (I @ K) = tensor_at v K"
proof (induction I arbitrary: ns A)
  case Nil
  then show ?case by simp
next
  case (Cons i I)
  then obtain n ns' where ns: "ns = n # ns'" "i < n" "list_all2 (<) I ns'"
    by (auto simp: list_all2_Cons1)
  with Cons.prems obtain xs where A: "A = Tensor xs" "length xs = n"
      "\<And>k. k < n \<Longrightarrow> has_shape (ns' @ ms) (xs ! k)"
    by (auto simp: has_shape_Cons)
  show ?case using Cons.IH [OF ns(3) A(3) [OF ns(2)]] A ns by simp
qed

lemma tensor_at_put_other:
  "list_all2 (<) I ns \<Longrightarrow> list_all2 (<) J ns \<Longrightarrow> I \<noteq> J \<Longrightarrow> has_shape (ns @ ms) A
     \<Longrightarrow> tensor_at (tensor_put A I v) (J @ K) = tensor_at A (J @ K)"
proof (induction I arbitrary: ns A J)
  case Nil
  then show ?case by simp
next
  case (Cons i I)
  then obtain n ns' where ns: "ns = n # ns'" "i < n" "list_all2 (<) I ns'"
    by (auto simp: list_all2_Cons1)
  with Cons.prems obtain j J' where J: "J = j # J'" "j < n" "list_all2 (<) J' ns'"
    by (auto simp: list_all2_Cons2)
  from ns Cons.prems obtain xs where A: "A = Tensor xs" "length xs = n"
      "\<And>k. k < n \<Longrightarrow> has_shape (ns' @ ms) (xs ! k)"
    by (auto simp: has_shape_Cons)
  show ?case
  proof (cases "i = j")
    case True
    with Cons.prems J have "I \<noteq> J'" by simp
    from Cons.IH [OF ns(3) J(3) this A(3) [OF ns(2)]] True A ns J show ?thesis by simp
  next
    case False
    with A ns J show ?thesis by simp
  qed
qed

lemma tensor_ext:
  "has_shape ns A \<Longrightarrow> has_shape ns B
     \<Longrightarrow> (\<And>I. list_all2 (<) I ns \<Longrightarrow> tensor_at A I = tensor_at B I) \<Longrightarrow> A = B"
proof (induction ns arbitrary: A B)
  case Nil
  from Nil.prems(3) [of "[]"] show ?case by simp
next
  case (Cons n ns)
  from Cons.prems obtain xs ys where A: "A = Tensor xs" "length xs = n"
      "\<And>k. k < n \<Longrightarrow> has_shape ns (xs ! k)"
    and B: "B = Tensor ys" "length ys = n" "\<And>k. k < n \<Longrightarrow> has_shape ns (ys ! k)"
    by (auto simp: has_shape_Cons)
  have "xs ! k = ys ! k" if k: "k < n" for k
  proof (rule Cons.IH [OF A(3) [OF k] B(3) [OF k]])
    fix I assume "list_all2 (<) I ns"
    with k have "list_all2 (<) (k # I) (n # ns)" by simp
    from Cons.prems(3) [OF this] A B show "tensor_at (xs ! k) I = tensor_at (ys ! k) I" by simp
  qed
  with A B show ?case by (simp add: list_eq_iff_nth_eq)
qed

lemma tensor_put_put:
  "tensor_put (tensor_put A I v) I w = tensor_put A I w"
proof (induction I arbitrary: A)
  case Nil
  then show ?case by simp
next
  case (Cons i I)
  show ?case
  proof (cases "i < length (data A)")
    case True
    with Cons.IH show ?thesis by simp
  next
    case False
    then show ?thesis by (simp add: list_update_beyond)
  qed
qed

lemma fold_set_invariant:
  assumes "P {} s"
    and "\<And>x S t. x \<in> set xs \<Longrightarrow> P S t \<Longrightarrow> P (insert x S) (f x t)"
  shows "P (set xs) (fold f xs s)"
  using assms(2)
proof (induction xs rule: rev_induct)
  case Nil
  from assms(1) show ?case by simp
next
  case (snoc x xs)
  have "P (set xs) (fold f xs s)" using snoc by simp
  then have "P (insert x (set xs)) (f x (fold f xs s))" using snoc.prems by simp
  then show ?case by simp
qed


lemma make_dual_entries:
  assumes A: "has_shape n A"
  shows "has_shape n (make_dual n A)"
    and "list_all2 (<) J n \<Longrightarrow> tensor_at (make_dual n A) J
          = Scalar \<lparr>value = entry (tensor_at A J), gradient = tensor_put (fill n 0) J (Scalar 1)\<rparr>"
proof -
  let ?step = "\<lambda>i A_dual.
          let A_dual = tensor_put A_dual i
                (Scalar ((entry (tensor_at A_dual i))\<lparr>value := entry (tensor_at A i)\<rparr>));
              A_dual = tensor_put A_dual i
                (Scalar ((entry (tensor_at A_dual i))
                   \<lparr>gradient := tensor_put (gradient (entry (tensor_at A_dual i))) i (Scalar 1)\<rparr>))
          in A_dual"
  let ?done = "\<lambda>J. \<lparr>value = entry (tensor_at A J), gradient = tensor_put (fill n 0) J (Scalar (1::real))\<rparr>"
  let ?init = "\<lparr>value = 0, gradient = fill n (0::real)\<rparr>"
  let ?P = "\<lambda>S D. has_shape n D \<and>
     (\<forall>J. list_all2 (<) J n \<longrightarrow> tensor_at D J = Scalar (if J \<in> S then ?done J else ?init))"
  have "?P (set (multi_indices n)) (fold ?step (multi_indices n) (fill n ?init))"
  proof (rule fold_set_invariant [where P = ?P])
    show "?P {} (fill n ?init)"
      by (simp add: has_shape_fill tensor_at_fill_entry)
  next
    fix i S D assume "i \<in> set (multi_indices n)" and P: "?P S D"
    then have i: "list_all2 (<) i n" by (simp add: set_multi_indices)
    from P have D: "has_shape (n @ []) D" by simp
    let ?e = "entry (tensor_at D i)"
    let ?D1 = "tensor_put D i (Scalar (?e\<lparr>value := entry (tensor_at A i)\<rparr>))"
    let ?D2 = "tensor_put ?D1 i (Scalar ((entry (tensor_at ?D1 i))
                   \<lparr>gradient := tensor_put (gradient (entry (tensor_at ?D1 i))) i (Scalar 1)\<rparr>))"
    have D1: "has_shape (n @ []) ?D1" by (rule has_shape_put [OF i D]) simp
    have D2: "has_shape (n @ []) ?D2" by (rule has_shape_put [OF i D1]) simp
    have at1: "tensor_at ?D1 i = Scalar (?e\<lparr>value := entry (tensor_at A i)\<rparr>)"
      using tensor_at_put_same [OF i D, of _ "[]"] by simp
    have e: "gradient ?e = fill n 0 \<or> gradient ?e = tensor_put (fill n 0) i (Scalar 1)"
      using P i by (cases "i \<in> S") simp_all
    then have g: "tensor_put (gradient ?e) i (Scalar 1) = tensor_put (fill n 0) i (Scalar 1)"
      by (auto simp: tensor_put_put)
    have at2: "tensor_at ?D2 i = Scalar (?done i)"
      using tensor_at_put_same [OF i D1, of _ "[]"] by (simp add: at1 g)
    have other: "tensor_at ?D2 J = tensor_at D J" if "list_all2 (<) J n" "J \<noteq> i" for J
      using tensor_at_put_other [OF i that(1) that(2) [symmetric] D1, of _ "[]"]
        tensor_at_put_other [OF i that(1) that(2) [symmetric] D, of _ "[]"] by simp
    have "\<forall>J. list_all2 (<) J n \<longrightarrow>
        tensor_at ?D2 J = Scalar (if J \<in> insert i S then ?done J else ?init)"
    proof (intro allI impI)
      fix J assume J: "list_all2 (<) J n"
      show "tensor_at ?D2 J = Scalar (if J \<in> insert i S then ?done J else ?init)"
      proof (cases "J = i")
        case True
        with at2 show ?thesis by simp
      next
        case False
        with other [OF J False] P J show ?thesis by simp
      qed
    qed
    with D2 show "?P (insert i S) (?step i D)" by (simp add: Let_def)
  qed
  then have fin: "?P (set (multi_indices n)) (make_dual n A)"
    by (simp add: make_dual_def for_constexpr_def)
  from fin show "has_shape n (make_dual n A)" by simp
  from fin show "list_all2 (<) J n \<Longrightarrow> tensor_at (make_dual n A) J = Scalar (?done J)"
    by (simp add: set_multi_indices)
qed

lemma get_value_entries:
  assumes "has_shape n arg"
  shows "has_shape n (get_value n arg)"
    and "list_all2 (<) J n \<Longrightarrow> tensor_at (get_value n arg) J = Scalar (value (entry (tensor_at arg J)))"
proof -
  let ?step = "\<lambda>i v. tensor_put v i (Scalar (value (entry (tensor_at arg i))))"
  let ?P = "\<lambda>S V. has_shape n V \<and>
     (\<forall>J. list_all2 (<) J n \<longrightarrow>
        tensor_at V J = Scalar (if J \<in> S then value (entry (tensor_at arg J)) else 0))"
  have "?P (set (multi_indices n)) (fold ?step (multi_indices n) (fill n 0))"
  proof (rule fold_set_invariant [where P = ?P])
    show "?P {} (fill n 0)"
      by (simp add: has_shape_fill tensor_at_fill_entry)
  next
    fix i S V assume "i \<in> set (multi_indices n)" and P: "?P S V"
    then have i: "list_all2 (<) i n" by (simp add: set_multi_indices)
    from P have V: "has_shape (n @ []) V" by simp
    have V1: "has_shape (n @ []) (?step i V)" by (rule has_shape_put [OF i V]) simp
    have "\<forall>J. list_all2 (<) J n \<longrightarrow>
        tensor_at (?step i V) J = Scalar (if J \<in> insert i S then value (entry (tensor_at arg J)) else 0)"
    proof (intro allI impI)
      fix J assume J: "list_all2 (<) J n"
      show "tensor_at (?step i V) J = Scalar (if J \<in> insert i S then value (entry (tensor_at arg J)) else 0)"
      proof (cases "J = i")
        case True
        with tensor_at_put_same [OF i V, of _ "[]"] show ?thesis by simp
      next
        case False
        with tensor_at_put_other [OF i J _ V, of _ "[]"] P J show ?thesis by auto
      qed
    qed
    with V1 show "?P (insert i S) (?step i V)" by simp
  qed
  then have fin: "?P (set (multi_indices n)) (get_value n arg)"
    by (simp add: get_value_def for_constexpr_def)
  from fin show "has_shape n (get_value n arg)" by simp
  from fin show "list_all2 (<) J n \<Longrightarrow> tensor_at (get_value n arg) J = Scalar (value (entry (tensor_at arg J)))"
    by (simp add: set_multi_indices)
qed

lemma get_gradient_entries:
  assumes "\<And>I. list_all2 (<) I n \<Longrightarrow> has_shape m (gradient (entry (tensor_at arg I)))"
  shows "has_shape (n @ m) (get_gradient n m arg)"
    and "list_all2 (<) I n \<Longrightarrow> tensor_at (get_gradient n m arg) (I @ K)
           = tensor_at (gradient (entry (tensor_at arg I))) K"
proof -
  let ?step = "\<lambda>i g. tensor_put g i (gradient (entry (tensor_at arg i)))"
  let ?P = "\<lambda>S G. has_shape (n @ m) G \<and>
     (\<forall>I K. list_all2 (<) I n \<longrightarrow>
        tensor_at G (I @ K) = (if I \<in> S then tensor_at (gradient (entry (tensor_at arg I))) K
                               else tensor_at (fill m 0) K))"
  have "?P (set (multi_indices n)) (fold ?step (multi_indices n) (fill (n @ m) 0))"
  proof (rule fold_set_invariant [where P = ?P])
    show "?P {} (fill (n @ m) 0)"
      by (simp add: has_shape_fill tensor_at_fill)
  next
    fix i S G assume "i \<in> set (multi_indices n)" and P: "?P S G"
    then have i: "list_all2 (<) i n" by (simp add: set_multi_indices)
    from P have G: "has_shape (n @ m) G" by simp
    have G1: "has_shape (n @ m) (?step i G)" by (rule has_shape_put [OF i G assms [OF i]])
    have "\<forall>I K. list_all2 (<) I n \<longrightarrow>
        tensor_at (?step i G) (I @ K) = (if I \<in> insert i S then tensor_at (gradient (entry (tensor_at arg I))) K
                               else tensor_at (fill m 0) K)"
    proof (intro allI impI)
      fix I K assume I: "list_all2 (<) I n"
      show "tensor_at (?step i G) (I @ K) = (if I \<in> insert i S then tensor_at (gradient (entry (tensor_at arg I))) K
                               else tensor_at (fill m 0) K)"
      proof (cases "I = i")
        case True
        with tensor_at_put_same [OF i G] show ?thesis by simp
      next
        case False
        with tensor_at_put_other [OF i I _ G] P I show ?thesis by auto
      qed
    qed
    with G1 show "?P (insert i S) (?step i G)" by simp
  qed
  then have fin: "?P (set (multi_indices n)) (get_gradient n m arg)"
    by (simp add: get_gradient_def for_constexpr_def)
  from fin show "has_shape (n @ m) (get_gradient n m arg)" by simp
  from fin show "list_all2 (<) I n \<Longrightarrow> tensor_at (get_gradient n m arg) (I @ K)
           = tensor_at (gradient (entry (tensor_at arg I))) K"
    by (simp add: set_multi_indices)
qed


lemma unit_tensor:
  assumes "list_all2 (<) I n"
  shows "has_shape n (tensor_put (fill n (0::real)) I (Scalar 1))"
    and "list_all2 (<) J n \<Longrightarrow>
           tensor_at (tensor_put (fill n (0::real)) I (Scalar 1)) J = Scalar (if J = I then 1 else 0)"
proof -
  have F: "has_shape (n @ []) (fill n (0::real))" by (simp add: has_shape_fill)
  from has_shape_put [OF assms F, of "Scalar 1"]
  show "has_shape n (tensor_put (fill n (0::real)) I (Scalar 1))" by simp
  show "tensor_at (tensor_put (fill n (0::real)) I (Scalar 1)) J = Scalar (if J = I then 1 else 0)"
    if J: "list_all2 (<) J n"
  proof (cases "J = I")
    case True
    with tensor_at_put_same [OF assms F, of "Scalar 1" "[]"] show ?thesis by simp
  next
    case False
    then have "I \<noteq> J" by simp
    from tensor_at_put_other [OF assms J this F, of "Scalar 1" "[]"] False J
    show ?thesis by (simp add: tensor_at_fill_entry)
  qed
qed

text \<open>
  Claim C5. For every tensor \<open>A\<close> of doubles of any shape, \<open>make_dual(A)\<close> keeps the primal part,
  \<open>get_value(make_dual(A)) == A\<close>, and seeds an identity gradient: the gradient of the entry
  at the multi-index \<open>I\<close> is a tensor of the shape of \<open>A\<close> with a single \<open>1\<close> at \<open>I\<close> and \<open>0\<close>
  elsewhere, so that \<open>get_gradient(make_dual(A))\<close> is the identity tensor of doubled rank.
\<close>

theorem make_dual_seeds_identity:
  assumes "has_shape n A"
  shows "get_value n (make_dual n A) = A
    \<and> has_shape (n @ n) (get_gradient n n (make_dual n A))
    \<and> (\<forall>I\<in>set (multi_indices n). \<forall>J\<in>set (multi_indices n).
          tensor_at (gradient (entry (tensor_at (make_dual n A) I))) J = Scalar (if J = I then 1 else 0)
          \<and> tensor_at (get_gradient n n (make_dual n A)) (I @ J) = Scalar (if I = J then 1 else 0))"
proof -
  note md = make_dual_entries [OF assms]
  have grad: "gradient (entry (tensor_at (make_dual n A) I)) = tensor_put (fill n 0) I (Scalar 1)"
    if "list_all2 (<) I n" for I
    using md(2) [OF that] by simp
  have "get_value n (make_dual n A) = A"
  proof (rule tensor_ext [of n])
    show "has_shape n (get_value n (make_dual n A))" by (rule get_value_entries(1) [OF md(1)])
    show "has_shape n A" by fact
    fix I assume I: "list_all2 (<) I n"
    from has_shape_at [OF I, of "[]" A] assms obtain a where "tensor_at A I = Scalar a"
      by (cases "tensor_at A I") auto
    with get_value_entries(2) [OF md(1) I] md(2) [OF I]
    show "tensor_at (get_value n (make_dual n A)) I = tensor_at A I" by simp
  qed
  moreover have shapes: "has_shape n (gradient (entry (tensor_at (make_dual n A) I)))"
    if "list_all2 (<) I n" for I
    using grad [OF that] unit_tensor(1) [OF that] by simp
  then have "has_shape (n @ n) (get_gradient n n (make_dual n A))"
    by (rule get_gradient_entries(1))
  moreover have "tensor_at (gradient (entry (tensor_at (make_dual n A) I))) J = Scalar (if J = I then 1 else 0)"
    if "list_all2 (<) I n" "list_all2 (<) J n" for I J
    using grad [OF that(1)] unit_tensor(2) [OF that] by simp
  moreover have "tensor_at (get_gradient n n (make_dual n A)) (I @ J) = Scalar (if I = J then 1 else 0)"
    if "list_all2 (<) I n" "list_all2 (<) J n" for I J
    using get_gradient_entries(2) [of n n "make_dual n A" I J, OF shapes that(1)]
      grad [OF that(1)] unit_tensor(2) [OF that] by auto
  ultimately show ?thesis by (simp add: set_multi_indices)
qed

theorem make_dual_seeds_identity_witness:
  "has_shape [2] (Tensor [Scalar 5, Scalar 7])
   \<and> get_value [2] (make_dual [2] (Tensor [Scalar 5, Scalar 7])) = Tensor [Scalar 5, Scalar 7]
   \<and> make_dual [2] (Tensor [Scalar 5, Scalar 7])
       = Tensor [Scalar \<lparr>value = 5, gradient = Tensor [Scalar 1, Scalar 0]\<rparr>,
                 Scalar \<lparr>value = 7, gradient = Tensor [Scalar 0, Scalar 1]\<rparr>]
   \<and> get_gradient [2] [2] (make_dual [2] (Tensor [Scalar 5, Scalar 7]))
       = Tensor [Tensor [Scalar 1, Scalar 0], Tensor [Scalar 0, Scalar 1]]"
proof -
  have shape: "has_shape [2] (Tensor [Scalar 5, Scalar (7::real)])" by simp
  have "make_dual [2] (Tensor [Scalar 5, Scalar 7])
       = Tensor [Scalar \<lparr>value = 5, gradient = Tensor [Scalar 1, Scalar 0]\<rparr>,
                 Scalar \<lparr>value = 7, gradient = Tensor [Scalar 0, Scalar 1]\<rparr>]"
    by code_simp
  moreover have "get_gradient [2] [2] (make_dual [2] (Tensor [Scalar 5, Scalar 7]))
       = Tensor [Tensor [Scalar 1, Scalar 0], Tensor [Scalar 0, Scalar 1]]"
    by code_simp
  ultimately show ?thesis using shape make_dual_seeds_identity [OF shape] by simp
qed

section \<open>Contractions with a vector\<close>

lemma fold_update_each:
  "length C = m \<Longrightarrow> fold (\<lambda>i C. C[i := F i (C ! i)]) [0..<m] C = map (\<lambda>i. F i (C ! i)) [0..<m]"
proof -
  assume len: "length C = m"
  let ?P = "\<lambda>k D. length D = m \<and> (\<forall>i<m. D ! i = (if i < k then F i (C ! i) else C ! i))"
  have "?P m (fold (\<lambda>i C. C[i := F i (C ! i)]) [0..<m] C)"
    by (rule fold_upt_invariant [where P = ?P]) (use len in \<open>auto simp: nth_list_update less_Suc_eq\<close>)
  then show ?thesis by (auto simp: list_eq_iff_nth_eq)
qed

lemma fold_assign_each:
  "length C = m \<Longrightarrow> fold (\<lambda>i C. C[i := g i]) [0..<m] C = map g [0..<m]"
  using fold_update_each [of C m "\<lambda>i old. g i"] by simp

lemma fold_accumulate_at:
  fixes C :: "real list"
  shows "fold (\<lambda>j C. C[i := C ! i + h j]) [0..<n] C = C[i := C ! i + (\<Sum>j<n. h j)]"
proof (cases "i < length C")
  case True
  let ?P = "\<lambda>k D. D = C[i := C ! i + (\<Sum>j<k. h j)]"
  have "?P n (fold (\<lambda>j C. C[i := C ! i + h j]) [0..<n] C)"
    by (rule fold_upt_invariant [where P = ?P]) (use True in \<open>auto simp: add.assoc\<close>)
  then show ?thesis .
next
  case False
  then have "fold (\<lambda>j C. C[i := C ! i + h j]) [0..<n] C = C"
    by (induction n) (simp_all add: list_update_beyond)
  with False show ?thesis by (simp add: list_update_beyond)
qed

lemma fold_accumulate_at2:
  fixes C :: "real list list"
  shows "fold (\<lambda>k C. C[i := (C ! i)[j := C ! i ! j + h k]]) [0..<n] C
           = C[i := (C ! i)[j := C ! i ! j + (\<Sum>k<n. h k)]]"
proof (cases "i < length C \<and> j < length (C ! i)")
  case True
  let ?P = "\<lambda>k D. D = C[i := (C ! i)[j := C ! i ! j + (\<Sum>k<k. h k)]]"
  have "?P n (fold (\<lambda>k C. C[i := (C ! i)[j := C ! i ! j + h k]]) [0..<n] C)"
    by (rule fold_upt_invariant [where P = ?P]) (use True in \<open>auto simp: add.assoc\<close>)
  then show ?thesis .
next
  case False
  then have same: "C[i := (C ! i)[j := x]] = C" for x
    by (cases "i < length C") (simp_all add: list_update_beyond)
  have "fold (\<lambda>k C. C[i := (C ! i)[j := C ! i ! j + h k]]) [0..<n] C = C"
    by (induction n) (simp_all add: same)
  then show ?thesis by (simp add: same)
qed

lemma fold_accumulate_row:
  "fold (\<lambda>j (C::real list). C[i := C ! i + h j]) [0..<n] = (\<lambda>C. C[i := C ! i + (\<Sum>j<n. h j)])"
  by (rule ext) (rule fold_accumulate_at)

lemma fold_accumulate_row2:
  "fold (\<lambda>k (C::real list list). C[i := (C ! i)[j := C ! i ! j + h k]]) [0..<n]
     = (\<lambda>C. C[i := (C ! i)[j := C ! i ! j + (\<Sum>k<n. h k)]])"
  by (rule ext) (rule fold_accumulate_at2)

lemma plus_tensor1: "plus_tensor1 m A B = map (\<lambda>i. A ! i + B ! i) [0..<m]"
  by (simp add: plus_tensor1_def fold_assign_each)

lemma plus_tensor2: "plus_tensor2 m n A B = map (\<lambda>i. map (\<lambda>j. A ! i ! j + B ! i ! j) [0..<n]) [0..<m]"
  by (simp add: plus_tensor2_def fold_assign_each plus_tensor1)

lemma plus_tensor3:
  "plus_tensor3 m n p A B
     = map (\<lambda>i. map (\<lambda>j. map (\<lambda>k. A ! i ! j ! k + B ! i ! j ! k) [0..<p]) [0..<n]) [0..<m]"
  by (simp add: plus_tensor3_def fold_assign_each plus_tensor2)

lemma times_scalar_tensor1: "times_scalar_tensor1 m s A = map (\<lambda>i. s * A ! i) [0..<m]"
  by (simp add: times_scalar_tensor1_def fold_assign_each)

lemma times_scalar_tensor2:
  "times_scalar_tensor2 m n s A = map (\<lambda>i. map (\<lambda>j. s * A ! i ! j) [0..<n]) [0..<m]"
  by (simp add: times_scalar_tensor2_def fold_assign_each times_scalar_tensor1)

lemma times_scalar_tensor3:
  "times_scalar_tensor3 m n p s A
     = map (\<lambda>i. map (\<lambda>j. map (\<lambda>k. s * A ! i ! j ! k) [0..<p]) [0..<n]) [0..<m]"
  by (simp add: times_scalar_tensor3_def fold_assign_each times_scalar_tensor2)

lemma dot_vector_vector: "dot_vector_vector m A B = (\<Sum>i<m. A ! i * B ! i)"
  by (simp add: dot_vector_vector_def fold_add_sum lessThan_atLeast0)

lemma dot_vector_matrix: "dot_vector_matrix m n A B = map (\<lambda>i. \<Sum>j<m. A ! j * B ! j ! i) [0..<n]"
  by (simp add: dot_vector_matrix_def fold_accumulate_row
      fold_update_each [of _ n "\<lambda>i old. old + (\<Sum>j<m. A ! j * B ! j ! i)"])

lemma dot_matrix_vector: "dot_matrix_vector m n A B = map (\<lambda>i. \<Sum>j<n. A ! i ! j * B ! j) [0..<m]"
  by (simp add: dot_matrix_vector_def fold_accumulate_row
      fold_update_each [of _ m "\<lambda>i old. old + (\<Sum>j<n. A ! i ! j * B ! j)"])

lemma fold_update_each2:
  assumes "length C = m" "\<And>i. i < m \<Longrightarrow> length (C ! i) = n"
  shows "fold (\<lambda>i. fold (\<lambda>j C. C[i := (C ! i)[j := F i j (C ! i ! j)]]) [0..<n]) [0..<m] C
           = map (\<lambda>i. map (\<lambda>j. F i j (C ! i ! j)) [0..<n]) [0..<m]"
proof -
  have inner: "fold (\<lambda>j C. C[i := (C ! i)[j := F i j (C ! i ! j)]]) [0..<n] D
      = D[i := map (\<lambda>j. F i j (D ! i ! j)) [0..<n]]" if "i < length D" "length (D ! i) = n" for i D
  proof -
    let ?P = "\<lambda>k E. length E = length D \<and> length (E ! i) = n \<and> (\<forall>r<length D. r \<noteq> i \<longrightarrow> E ! r = D ! r)
        \<and> (\<forall>c<n. E ! i ! c = (if c < k then F i c (D ! i ! c) else D ! i ! c))"
    have "?P n (fold (\<lambda>j C. C[i := (C ! i)[j := F i j (C ! i ! j)]]) [0..<n] D)"
      by (rule fold_upt_invariant [where P = ?P]) (use that in \<open>auto simp: nth_list_update less_Suc_eq\<close>)
    then show ?thesis using that by (auto simp: list_eq_iff_nth_eq nth_list_update)
  qed
  let ?Q = "\<lambda>k E. length E = m \<and>
     (\<forall>i<m. E ! i = (if i < k then map (\<lambda>j. F i j (C ! i ! j)) [0..<n] else C ! i))"
  have "?Q m (fold (\<lambda>i. fold (\<lambda>j C. C[i := (C ! i)[j := F i j (C ! i ! j)]]) [0..<n]) [0..<m] C)"
  proof (rule fold_upt_invariant [where P = ?Q])
    show "?Q 0 C" using assms by simp
    show "0 \<le> m" by simp
  next
    fix k E assume k: "0 \<le> k" "k < m" and Q: "?Q k E"
    then have "k < length E" "length (E ! k) = n" "E ! k = C ! k" using assms by auto
    with inner [of k E] Q k
    show "?Q (Suc k) (fold (\<lambda>j C. C[k := (C ! k)[j := F k j (C ! k ! j)]]) [0..<n] E)"
      by (auto simp: nth_list_update less_Suc_eq)
  qed
  then show ?thesis by (auto simp: list_eq_iff_nth_eq)
qed

lemma dot_tensor3_vector:
  "dot_tensor3_vector m n p A B = map (\<lambda>i. map (\<lambda>j. \<Sum>k<p. A ! i ! j ! k * B ! k) [0..<n]) [0..<m]"
  by (simp add: dot_tensor3_vector_def fold_accumulate_row2
      fold_update_each2 [of _ m n "\<lambda>i j old. old + (\<Sum>k<p. A ! i ! j ! k * B ! k)"])

lemma dot_matrix_matrix:
  "dot_matrix_matrix m n p A B = map (\<lambda>i. map (\<lambda>j. \<Sum>k<n. A ! i ! k * B ! k ! j) [0..<p]) [0..<m]"
  by (simp add: dot_matrix_matrix_def fold_accumulate_row2
      fold_update_each2 [of _ m p "\<lambda>i j old. old + (\<Sum>k<n. A ! i ! k * B ! k ! j)"])

lemma dot_vector_tensor3:
  "dot_vector_tensor3 m n p A B = map (\<lambda>r. map (\<lambda>c. \<Sum>j<m. A ! j * B ! j ! r ! c) [0..<p]) [0..<n]"
proof -
  let ?P = "\<lambda>k AB. AB = map (\<lambda>r. map (\<lambda>c. \<Sum>j<k. A ! j * B ! j ! r ! c) [0..<p]) [0..<n]"
  have "?P m (fold (\<lambda>j AB. plus_tensor2 n p AB (times_scalar_tensor2 n p (A ! j) (B ! j))) [0..<m]
       (replicate n (replicate p 0)))"
    by (rule fold_upt_invariant [where P = ?P])
      (auto simp: list_eq_iff_nth_eq plus_tensor2 times_scalar_tensor2)
  then show ?thesis by (simp add: dot_vector_tensor3_def)
qed

lemma dot_vector_tensor4:
  "dot_vector_tensor4 m n p q A B
     = map (\<lambda>r. map (\<lambda>c. map (\<lambda>d. \<Sum>j<m. A ! j * B ! j ! r ! c ! d) [0..<q]) [0..<p]) [0..<n]"
proof -
  let ?P = "\<lambda>k AB. AB = map (\<lambda>r. map (\<lambda>c. map (\<lambda>d. \<Sum>j<k. A ! j * B ! j ! r ! c ! d) [0..<q]) [0..<p]) [0..<n]"
  have "?P m (fold (\<lambda>j AB. plus_tensor3 n p q AB (times_scalar_tensor3 n p q (A ! j) (B ! j))) [0..<m]
       (replicate n (replicate p (replicate q 0))))"
    by (rule fold_upt_invariant [where P = ?P])
      (auto simp: list_eq_iff_nth_eq plus_tensor3 times_scalar_tensor3)
  then show ?thesis by (simp add: dot_vector_tensor4_def)
qed

text \<open>
  Claim C6. For every vector \<open>v\<close> and every tensor \<open>T\<close> of higher rank with conforming
  extents, \<open>dot(v, T)\<close> contracts \<open>v\<close> against the first index of \<open>T\<close>: the entry at \<open>(j...)\<close> is
  the sum over \<open>i\<close> of \<open>v(i) * T(i, j...)\<close>; and \<open>dot(T, v)\<close> contracts \<open>v\<close> against the last index
  of \<open>T\<close>: the entry at \<open>(i...)\<close> is the sum over \<open>k\<close> of \<open>T(i..., k) * v(k)\<close>. The overloads of the
  source are those for \<open>T\<close> of rank 2, 3 and 4 on the right of \<open>v\<close>, and of rank 2 and 3 on
  its left.
\<close>

theorem dot_contracts_adjacent_index:
  assumes "is_vec m v" "is_mat m n M" "is_tensor3 m n p T" "is_tensor4 m n p q U"
    and "is_vec n w" "is_vec p x"
  shows "is_vec n (dot_vector_matrix m n v M)
      \<and> (\<forall>j<n. dot_vector_matrix m n v M ! j = (\<Sum>i<m. v ! i * M ! i ! j))
    \<and> is_mat n p (dot_vector_tensor3 m n p v T)
      \<and> (\<forall>j<n. \<forall>k<p. dot_vector_tensor3 m n p v T ! j ! k = (\<Sum>i<m. v ! i * T ! i ! j ! k))
    \<and> is_tensor3 n p q (dot_vector_tensor4 m n p q v U)
      \<and> (\<forall>j<n. \<forall>k<p. \<forall>l<q.
            dot_vector_tensor4 m n p q v U ! j ! k ! l = (\<Sum>i<m. v ! i * U ! i ! j ! k ! l))
    \<and> is_vec m (dot_matrix_vector m n M w)
      \<and> (\<forall>i<m. dot_matrix_vector m n M w ! i = (\<Sum>k<n. M ! i ! k * w ! k))
    \<and> is_mat m n (dot_tensor3_vector m n p T x)
      \<and> (\<forall>i<m. \<forall>j<n. dot_tensor3_vector m n p T x ! i ! j = (\<Sum>k<p. T ! i ! j ! k * x ! k))"
  by (simp add: dot_vector_matrix dot_vector_tensor3 dot_vector_tensor4 dot_matrix_vector
      dot_tensor3_vector is_vec_def is_mat_def is_tensor3_def list_all_length)

theorem dot_contracts_adjacent_index_witness:
  "is_vec 2 [1, 2 :: real] \<and> is_mat 2 2 [[1, 2], [3, 4 :: real]]
   \<and> is_tensor3 2 2 2 [[[1, 2], [3, 4]], [[5, 6], [7, 8 :: real]]]
   \<and> is_tensor4 2 2 2 1 [[[[1], [2]], [[3], [4]]], [[[5], [6]], [[7], [8 :: real]]]]
   \<and> dot_vector_matrix 2 2 [1, 2] [[1, 2], [3, 4]] = [7, 10]
   \<and> dot_matrix_vector 2 2 [[1, 2], [3, 4]] [1, 2] = [5, 11]
   \<and> dot_vector_tensor3 2 2 2 [1, 2] [[[1, 2], [3, 4]], [[5, 6], [7, 8]]] = [[11, 14], [17, 20]]
   \<and> dot_tensor3_vector 2 2 2 [[[1, 2], [3, 4]], [[5, 6], [7, 8]]] [1, 2] = [[5, 11], [17, 23]]
   \<and> dot_vector_tensor4 2 2 2 1 [1, 2] [[[[1], [2]], [[3], [4]]], [[[5], [6]], [[7], [8]]]]
       = [[[11], [14]], [[17], [20]]]"
proof -
  have shapes: "is_vec 2 [1, 2 :: real]" "is_mat 2 2 [[1, 2], [3, 4 :: real]]"
    "is_tensor3 2 2 2 [[[1, 2], [3, 4]], [[5, 6], [7, 8 :: real]]]"
    "is_tensor4 2 2 2 1 [[[[1], [2]], [[3], [4]]], [[[5], [6]], [[7], [8 :: real]]]]"
    by (simp_all add: is_vec_def is_mat_def is_tensor3_def is_tensor4_def)
  have computed: "dot_vector_matrix 2 2 [1, 2] [[1, 2], [3, 4]] = [7, 10]"
    "dot_matrix_vector 2 2 [[1, 2], [3, 4]] [1, 2] = [5, 11]"
    "dot_vector_tensor3 2 2 2 [1, 2] [[[1, 2], [3, 4]], [[5, 6], [7, 8]]] = [[11, 14], [17, 20]]"
    "dot_tensor3_vector 2 2 2 [[[1, 2], [3, 4]], [[5, 6], [7, 8]]] [1, 2] = [[5, 11], [17, 23]]"
    "dot_vector_tensor4 2 2 2 1 [1, 2] [[[[1], [2]], [[3], [4]]], [[[5], [6]], [[7], [8]]]]
       = [[[11], [14]], [[17], [20]]]"
    by code_simp+
  from shapes computed dot_contracts_adjacent_index [OF shapes shapes(1) shapes(1)]
  show ?thesis by simp
qed

section \<open>The closed forms of the inverse\<close>

lemma upt2: "[0..<2] = [0, 1]" by (simp add: upt_rec)
lemma upt3: "[0..<3] = [0, 1, 2]" by (simp add: upt_rec)

lemma lessThan2: "{..<2::nat} = {0, 1}" by auto
lemma lessThan3: "{..<3::nat} = {0, 1, 2}" by auto

lemma is_mat_2_2: "is_mat 2 2 A \<Longrightarrow> \<exists>a b c d. A = [[a, b], [c, d]]"
proof -
  assume "is_mat 2 2 A"
  then have l: "length A = 2" "length (A ! 0) = 2" "length (A ! 1) = 2"
    by (auto simp: is_mat_def list_all_length)
  have row: "xs = [xs ! 0, xs ! 1]" if "length xs = 2" for xs :: "'b list"
    using that by (auto simp: list_eq_iff_nth_eq less_Suc_eq numeral_2_eq_2)
  from row [OF l(1)] row [OF l(2)] row [OF l(3)] show ?thesis by metis
qed

lemma is_mat_3_3:
  "is_mat 3 3 A \<Longrightarrow> \<exists>a b c d e f g h i. A = [[a, b, c], [d, e, f], [g, h, i]]"
proof -
  assume "is_mat 3 3 A"
  then have l: "length A = 3" "length (A ! 0) = 3" "length (A ! 1) = 3" "length (A ! 2) = 3"
    by (auto simp: is_mat_def list_all_length)
  have row: "xs = [xs ! 0, xs ! 1, xs ! 2]" if "length xs = 3" for xs :: "'b list"
    using that by (auto simp: list_eq_iff_nth_eq less_Suc_eq numeral_3_eq_3 numeral_2_eq_2)
  from row [OF l(1)] row [OF l(2)] row [OF l(3)] row [OF l(4)] show ?thesis by metis
qed

lemma DenseIdentity2: "DenseIdentity 2 = [[1, 0], [0, 1]]"
  by (simp add: DenseIdentity_def make_tensor2_def upt2)

lemma DenseIdentity3: "DenseIdentity 3 = [[1, 0, 0], [0, 1, 0], [0, 0, 1]]"
  by (simp add: DenseIdentity_def make_tensor2_def upt3)

lemma dot22:
  "dot_matrix_matrix 2 2 2 [[a, b], [c, d]] [[e, f], [g, h]]
     = [[a * e + b * g, a * f + b * h], [c * e + d * g, c * f + d * h]]"
  by (simp add: dot_matrix_matrix upt2 lessThan2)

lemma dot33:
  "dot_matrix_matrix 3 3 3 [[a1, a2, a3], [b1, b2, b3], [c1, c2, c3]]
       [[x1, x2, x3], [y1, y2, y3], [z1, z2, z3]]
     = [[a1 * x1 + a2 * y1 + a3 * z1, a1 * x2 + a2 * y2 + a3 * z2, a1 * x3 + a2 * y3 + a3 * z3],
        [b1 * x1 + b2 * y1 + b3 * z1, b1 * x2 + b2 * y2 + b3 * z2, b1 * x3 + b2 * y3 + b3 * z3],
        [c1 * x1 + c2 * y1 + c3 * z1, c1 * x2 + c2 * y2 + c3 * z2, c1 * x3 + c2 * y3 + c3 * z3]]"
  by (simp add: dot_matrix_matrix upt3 lessThan3 add.assoc)

lemma invertible2_det:
  assumes "is_mat 2 2 A" "invertible 2 A"
  shows "det2 A \<noteq> 0"
proof -
  from assms obtain C where C: "is_mat 2 2 C" "dot_matrix_matrix 2 2 2 A C = DenseIdentity 2"
    by (auto simp: invertible_def)
  from is_mat_2_2 [OF assms(1)] obtain a b c d where A: "A = [[a, b], [c, d]]" by blast
  from is_mat_2_2 [OF C(1)] obtain e f g h where C': "C = [[e, f], [g, h]]" by blast
  from C(2) have eqs: "a * e + b * g = 1" "a * f + b * h = 0" "c * e + d * g = 0" "c * f + d * h = 1"
    by (simp_all add: A C' dot22 DenseIdentity2)
  have "(a * d - b * c) * (e * h - f * g) = (a * e + b * g) * (c * f + d * h) - (a * f + b * h) * (c * e + d * g)"
    by (simp add: algebra_simps)
  also have "\<dots> = 1" by (simp add: eqs)
  finally show ?thesis by (auto simp: A det2_def)
qed

lemma inv2_correct:
  assumes "is_mat 2 2 A" "invertible 2 A"
  shows "dot_matrix_matrix 2 2 2 A (inv2 A) = DenseIdentity 2"
    and "dot_matrix_matrix 2 2 2 (inv2 A) A = DenseIdentity 2"
proof -
  from is_mat_2_2 [OF assms(1)] obtain a b c d where A: "A = [[a, b], [c, d]]" by blast
  define D where "D = 1 / (a * d - b * c)"
  from invertible2_det [OF assms] have D: "(a * d - b * c) * D = 1" by (simp add: A det2_def D_def)
  have inv: "inv2 [[a, b], [c, d]] = [[d * D, - b * D], [- c * D, a * D]]"
    by (simp add: inv2_def det2_def D_def)
  have one: "a * (d * D) + b * (- c * D) = 1" "c * (- b * D) + d * (a * D) = 1"
    "d * D * a + - b * D * c = 1" "- c * D * b + a * D * d = 1"
    using D by algebra+
  have nil: "a * (- b * D) + b * (a * D) = 0" "c * (d * D) + d * (- c * D) = 0"
    "d * D * b + - b * D * d = 0" "- c * D * a + a * D * c = 0"
    by algebra+
  from one nil show "dot_matrix_matrix 2 2 2 A (inv2 A) = DenseIdentity 2"
    unfolding A inv dot22 DenseIdentity2 by simp
  from one nil show "dot_matrix_matrix 2 2 2 (inv2 A) A = DenseIdentity 2"
    unfolding A inv dot22 DenseIdentity2 by simp
qed

lemma det3_mult:
  "det3 (dot_matrix_matrix 3 3 3 [[a1, a2, a3], [b1, b2, b3], [c1, c2, c3]]
       [[x1, x2, x3], [y1, y2, y3], [z1, z2, z3]])
    = det3 [[a1, a2, a3], [b1, b2, b3], [c1, c2, c3]] * det3 [[x1, x2, x3], [y1, y2, y3], [z1, z2, z3]]"
  by (simp add: dot33 det3_def) algebra

lemma invertible3_det:
  assumes "is_mat 3 3 A" "invertible 3 A"
  shows "det3 A \<noteq> 0"
proof -
  from assms obtain C where C: "is_mat 3 3 C" "dot_matrix_matrix 3 3 3 A C = DenseIdentity 3"
    by (auto simp: invertible_def)
  from is_mat_3_3 [OF assms(1)] obtain a1 a2 a3 b1 b2 b3 c1 c2 c3
    where A: "A = [[a1, a2, a3], [b1, b2, b3], [c1, c2, c3]]" by blast
  from is_mat_3_3 [OF C(1)] obtain x1 x2 x3 y1 y2 y3 z1 z2 z3
    where C': "C = [[x1, x2, x3], [y1, y2, y3], [z1, z2, z3]]" by blast
  have "det3 A * det3 C = det3 (DenseIdentity 3)"
    unfolding C(2) [symmetric] A C' by (rule det3_mult [symmetric])
  also have "\<dots> = 1" by (simp add: DenseIdentity3 det3_def)
  finally show ?thesis by auto
qed

lemma inv3_correct:
  assumes "is_mat 3 3 A" "invertible 3 A"
  shows "dot_matrix_matrix 3 3 3 A (inv3 A) = DenseIdentity 3"
    and "dot_matrix_matrix 3 3 3 (inv3 A) A = DenseIdentity 3"
proof -
  from is_mat_3_3 [OF assms(1)] obtain a b c d e f g h i
    where A: "A = [[a, b, c], [d, e, f], [g, h, i]]" by blast
  define D where "D = 1 / det3 A"
  from invertible3_det [OF assms]
  have D: "(a * e * i + b * f * g + c * d * h - a * f * h - b * d * i - c * e * g) * D = 1"
    by (simp add: A det3_def D_def)
  have inv: "inv3 [[a, b, c], [d, e, f], [g, h, i]]
      = [[(e * i - f * h) * D, (c * h - b * i) * D, (b * f - c * e) * D],
         [(f * g - d * i) * D, (a * i - c * g) * D, (c * d - a * f) * D],
         [(d * h - e * g) * D, (b * g - a * h) * D, (a * e - b * d) * D]]"
    unfolding inv3_def Let_def D_def A by simp
  have one: "a * ((e * i - f * h) * D) + b * ((f * g - d * i) * D) + c * ((d * h - e * g) * D) = 1"
    "d * ((c * h - b * i) * D) + e * ((a * i - c * g) * D) + f * ((b * g - a * h) * D) = 1"
    "g * ((b * f - c * e) * D) + h * ((c * d - a * f) * D) + i * ((a * e - b * d) * D) = 1"
    "(e * i - f * h) * D * a + (c * h - b * i) * D * d + (b * f - c * e) * D * g = 1"
    "(f * g - d * i) * D * b + (a * i - c * g) * D * e + (c * d - a * f) * D * h = 1"
    "(d * h - e * g) * D * c + (b * g - a * h) * D * f + (a * e - b * d) * D * i = 1"
    using D by algebra+
  have nil: "a * ((c * h - b * i) * D) + b * ((a * i - c * g) * D) + c * ((b * g - a * h) * D) = 0"
    "a * ((b * f - c * e) * D) + b * ((c * d - a * f) * D) + c * ((a * e - b * d) * D) = 0"
    "d * ((e * i - f * h) * D) + e * ((f * g - d * i) * D) + f * ((d * h - e * g) * D) = 0"
    "d * ((b * f - c * e) * D) + e * ((c * d - a * f) * D) + f * ((a * e - b * d) * D) = 0"
    "g * ((e * i - f * h) * D) + h * ((f * g - d * i) * D) + i * ((d * h - e * g) * D) = 0"
    "g * ((c * h - b * i) * D) + h * ((a * i - c * g) * D) + i * ((b * g - a * h) * D) = 0"
    "(e * i - f * h) * D * b + (c * h - b * i) * D * e + (b * f - c * e) * D * h = 0"
    "(e * i - f * h) * D * c + (c * h - b * i) * D * f + (b * f - c * e) * D * i = 0"
    "(f * g - d * i) * D * a + (a * i - c * g) * D * d + (c * d - a * f) * D * g = 0"
    "(f * g - d * i) * D * c + (a * i - c * g) * D * f + (c * d - a * f) * D * i = 0"
    "(d * h - e * g) * D * a + (b * g - a * h) * D * d + (a * e - b * d) * D * g = 0"
    "(d * h - e * g) * D * b + (b * g - a * h) * D * e + (a * e - b * d) * D * h = 0"
    by algebra+
  from one nil show "dot_matrix_matrix 3 3 3 A (inv3 A) = DenseIdentity 3"
    unfolding A inv dot33 DenseIdentity3 by simp
  from one nil show "dot_matrix_matrix 3 3 3 (inv3 A) A = DenseIdentity 3"
    unfolding A inv dot33 DenseIdentity3 by simp
qed

section \<open>The overloads of \<open>inv\<close>\<close>

text \<open>
  Claim C2. For every invertible square matrix \<open>A\<close>, \<open>dot(A, inv(A))\<close> and \<open>dot(inv(A), A)\<close>
  are claimed to be the identity matrix, for the sizes \<open>2 \<times> 2\<close>, \<open>3 \<times> 3\<close> and \<open>n \<times> n\<close> with
  \<open>n > 3\<close>. For \<open>2 \<times> 2\<close> and \<open>3 \<times> 3\<close> they are, in exact arithmetic: the closed forms give
  the inverse. For every other \<open>n\<close> the call \<open>inv(A)\<close> selects the template, which assigns to
  its parameter \<open>const tensor<T, n, n>& A\<close>, and returns no matrix.
\<close>

theorem inv_closed_forms_only:
  assumes "is_mat n n A" "invertible n A"
  shows "(n = 2 \<or> n = 3 \<longrightarrow>
           (\<exists>B. inv n A = Inr B \<and> dot_matrix_matrix n n n A B = DenseIdentity n
                \<and> dot_matrix_matrix n n n B A = DenseIdentity n))
    \<and> (n \<noteq> 2 \<and> n \<noteq> 3 \<longrightarrow> inv n A = Inl Assignment_to_const)"
proof (intro conjI impI)
  assume "n = 2 \<or> n = 3"
  then show "\<exists>B. inv n A = Inr B \<and> dot_matrix_matrix n n n A B = DenseIdentity n
                \<and> dot_matrix_matrix n n n B A = DenseIdentity n"
  proof
    assume "n = 2"
    with assms inv2_correct [of A] show ?thesis by (simp add: inv_def)
  next
    assume "n = 3"
    with assms inv3_correct [of A] show ?thesis by (simp add: inv_def)
  qed
next
  assume "n \<noteq> 2 \<and> n \<noteq> 3"
  then show "inv n A = Inl Assignment_to_const" by (simp add: inv_def inv_general_def)
qed

theorem inv_closed_forms_only_witness:
  "is_mat 2 2 [[2, 1], [1, 1 :: real]] \<and> invertible 2 [[2, 1], [1, 1]]
   \<and> inv 2 [[2, 1], [1, 1]] = Inr [[1, - 1], [- 1, 2]]
   \<and> dot_matrix_matrix 2 2 2 [[2, 1], [1, 1]] [[1, - 1], [- 1, 2]] = DenseIdentity 2
   \<and> dot_matrix_matrix 2 2 2 [[1, - 1], [- 1, 2]] [[2, 1], [1, 1]] = DenseIdentity 2
   \<and> is_mat 4 4 [[0, 2, 0, 0], [1, 0, 0, 0], [0, 0, 1, 1], [0, 0, 1, 2 :: real]]
   \<and> invertible 4 [[0, 2, 0, 0], [1, 0, 0, 0], [0, 0, 1, 1], [0, 0, 1, 2]]
   \<and> inv 4 [[0, 2, 0, 0], [1, 0, 0, 0], [0, 0, 1, 1], [0, 0, 1, 2]] = Inl Assignment_to_const"
proof -
  let ?A = "[[2, 1], [1, 1 :: real]]"
  let ?B = "[[1, - 1], [- 1, 2 :: real]]"
  let ?M = "[[0, 2, 0, 0], [1, 0, 0, 0], [0, 0, 1, 1], [0, 0, 1, 2 :: real]]"
  let ?C = "[[0, 1, 0, 0], [1 / 2, 0, 0, 0], [0, 0, 2, - 1], [0, 0, - 1, 1 :: real]]"
  have shape: "is_mat 2 2 ?A" "is_mat 2 2 ?B" "is_mat 4 4 ?M" "is_mat 4 4 ?C"
    by (simp_all add: is_mat_def)
  have "dot_matrix_matrix 2 2 2 ?A ?B = DenseIdentity 2" "dot_matrix_matrix 2 2 2 ?B ?A = DenseIdentity 2"
    by code_simp+
  with shape(2) have A: "invertible 2 ?A"
    unfolding invertible_def by blast
  have "dot_matrix_matrix 4 4 4 ?M ?C = DenseIdentity 4" "dot_matrix_matrix 4 4 4 ?C ?M = DenseIdentity 4"
    by code_simp+
  with shape(4) have M: "invertible 4 ?M"
    unfolding invertible_def by blast
  have B: "inv 2 ?A = Inr ?B" by code_simp
  from shape(1, 3) A M B inv_closed_forms_only [OF shape(1) A] inv_closed_forms_only [OF shape(3) M]
  show ?thesis by simp
qed

section \<open>Evaluation with and without derivatives\<close>







text \<open>The operators above meet the contract.\<close>

lemma get_value_Scalar: "get_value [] (Scalar a) = Scalar (value a)"
  by (simp add: get_value_def for_constexpr_def)

lemma two_arguments:
  assumes "list_all2 has_shape [s, t] args"
  shows "\<exists>A B. args = [A, B] \<and> has_shape s A \<and> has_shape t B"
  using assms by (auto simp: list_all2_Cons1)

lemma scalar_argument: "has_shape [] A \<Longrightarrow> \<exists>a. A = Scalar a"
  by (cases A) simp_all

lemma keeps_values_scalar_operator:
  assumes "\<And>a b. value (f_dual n a b) = f (value a) (value b)"
  shows "keeps_values n (scalar_operator f f_dual)"
  unfolding keeps_values_def
proof (intro allI impI)
  fix args :: "real tensor dual tensor list"
  assume "list_all2 has_shape (argument_shapes (scalar_operator f f_dual)) args"
  then have "list_all2 has_shape [[], []] args" by (simp add: scalar_operator_def)
  from two_arguments [OF this] obtain A B
    where args: "args = [A, B]" and A: "has_shape [] A" and B: "has_shape [] B" by blast
  from scalar_argument [OF A] scalar_argument [OF B] obtain a b
    where "A = Scalar a" "B = Scalar b" by blast
  with args show "has_shape (result_shape (scalar_operator f f_dual)) (on_dual (scalar_operator f f_dual) n args)
    \<and> get_value (result_shape (scalar_operator f f_dual)) (on_dual (scalar_operator f f_dual) n args)
        = on_double (scalar_operator f f_dual) (map2 get_value (argument_shapes (scalar_operator f f_dual)) args)"
    by (simp add: scalar_operator_def get_value_Scalar assms)
qed

lemma keeps_values_arithmetic:
  "keeps_values n plus_operator" "keeps_values n minus_operator"
  "keeps_values n times_operator" "keeps_values n divide_operator"
  unfolding plus_operator_def minus_operator_def times_operator_def divide_operator_def
  by (rule keeps_values_scalar_operator;
      simp add: dual_plus_def dual_minus_def dual_times_def dual_divide_def)+





lemma init_fields:
  assumes "which < length (trial_shapes cfg)"
  shows "evaluation (fst (BoundaryIntegral_init cfg trial_dofs qf)) = evaluation_kernel cfg qf"
    and "evaluation_with_AD (fst (BoundaryIntegral_init cfg trial_dofs qf)) ! which
           = evaluation_kernel_with_AD which cfg qf"
    and "action_of_gradient (fst (BoundaryIntegral_init cfg trial_dofs qf)) ! which
           = action_of_gradient_kernel which cfg"
    and "num_trial_spaces (fst (BoundaryIntegral_init cfg trial_dofs qf)) = length (trial_shapes cfg)"
    and "length (action_of_gradient (fst (BoundaryIntegral_init cfg trial_dofs qf)))
           = length (trial_shapes cfg)"
    and "snd (BoundaryIntegral_init cfg trial_dofs qf) ! which
           = replicate (num_elements cfg * quadrature_points_per_element cfg)
               (fill (test_shape cfg @ trial_shapes cfg ! which) 0)"
  using assms by (simp_all add: BoundaryIntegral_init_def num_trial_spaces_def)




section \<open>The gradient kernels before any pass with derivatives\<close>

lemma concat_replicate:
  "concat (map (\<lambda>e. replicate d x) [0..<E]) = replicate (E * d) x"
  by (induction E) (simp_all add: replicate_add [symmetric] add.commute)

lemma chain_rule_zero: "chain_rule n (fill n 0) dx = 0"
proof -
  let ?f = "\<lambda>i total. total + entry (tensor_at (fill n (0::real)) i) * entry (tensor_at dx i)"
  have "fold ?f (multi_indices n) 0 = 0"
    by (rule fold_set_invariant [where P = "\<lambda>S t. t = 0"])
      (simp_all add: set_multi_indices tensor_at_fill_entry)
  then show ?thesis by (simp add: chain_rule_def for_constexpr_def)
qed

lemma chain_rule_tensor_zero: "chain_rule_tensor out n (fill (out @ n) 0) dx = fill out 0"
  by (induction out) (simp_all add: chain_rule_zero list_eq_iff_nth_eq)

lemma integrate_zero:
  assumes "\<And>e q. e < num_elements cfg \<Longrightarrow> q < quadrature_points_per_element cfg
             \<Longrightarrow> f e q = fill (test_shape cfg) 0"
  shows "integrate cfg f = replicate (num_elements cfg * test_dofs cfg) 0"
proof -
  have "map (\<lambda>i. sum_list (map (\<lambda>q. geometric_factor cfg e q
                                    * chain_rule (test_shape cfg) (f e q) (test_function cfg i q))
                   [0..<quadrature_points_per_element cfg])) [0..<test_dofs cfg]
      = replicate (test_dofs cfg) 0" if "e < num_elements cfg" for e
  proof -
    have m: "map (\<lambda>q. geometric_factor cfg e q
                        * chain_rule (test_shape cfg) (f e q) (test_function cfg i q))
              [0..<quadrature_points_per_element cfg]
        = map (\<lambda>q. 0) [0..<quadrature_points_per_element cfg]" for i
      by (rule map_cong) (use assms [OF that] in \<open>auto simp: chain_rule_zero\<close>)
    have "sum_list (map (\<lambda>q. geometric_factor cfg e q
                              * chain_rule (test_shape cfg) (f e q) (test_function cfg i q))
              [0..<quadrature_points_per_element cfg]) = 0" for i
      unfolding m by simp
    then show ?thesis by (simp add: list_eq_iff_nth_eq)
  qed
  then have "integrate cfg f = concat (map (\<lambda>e. replicate (test_dofs cfg) 0) [0..<num_elements cfg])"
    unfolding integrate_def by (intro arg_cong [where f = concat] map_cong) simp_all
  also have "\<dots> = replicate (num_elements cfg * test_dofs cfg) 0"
    by (rule concat_replicate)
  finally show ?thesis .
qed

lemma cache_index:
  "e < E \<Longrightarrow> q < Q \<Longrightarrow> e * Q + q < E * (Q::nat)"
proof -
  assume "e < E" "q < Q"
  then have "e * Q + q < e * Q + Q" by simp
  also have "\<dots> = Suc e * Q" by simp
  also have "\<dots> \<le> E * Q" using \<open>e < E\<close> by (intro mult_le_mono1) simp
  finally show ?thesis .
qed

text \<open>
  Claim C9. Calling \<open>GradientMult\<close> or \<open>ComputeElementGradients\<close> before any call of \<open>Mult\<close>
  with derivatives for the same trial field is claimed to raise no error, to read the
  zero-initialised derivative cache and to produce zero derivative data, leaving the state
  of the integral as it is. \<open>GradientMult\<close> does so. \<open>ComputeElementGradients\<close> selects no
  trial field and runs no kernel.
\<close>

theorem gradient_before_AD:
  assumes "which < length (trial_shapes cfg)"
  shows "GradientMult (fst (BoundaryIntegral_init cfg trial_dofs qf))
           (snd (BoundaryIntegral_init cfg trial_dofs qf)) input_E which
         = Inr (replicate (num_elements cfg * test_dofs cfg) 0,
                snd (BoundaryIntegral_init cfg trial_dofs qf))
    \<and> ComputeElementGradients (fst (BoundaryIntegral_init cfg trial_dofs qf))
           (snd (BoundaryIntegral_init cfg trial_dofs qf)) = Inl Not_callable"
proof -
  have "action_of_gradient_kernel which cfg (snd (BoundaryIntegral_init cfg trial_dofs qf) ! which) input_E
      = replicate (num_elements cfg * test_dofs cfg) 0"
    unfolding action_of_gradient_kernel_def init_fields(6) [OF assms]
    by (rule integrate_zero) (simp add: cache_index chain_rule_tensor_zero)
  then show ?thesis
    using assms by (simp add: GradientMult_def init_fields [OF assms] ComputeElementGradients_def)
qed

theorem gradient_before_AD_witness:
  "GradientMult (fst example_integral) (snd example_integral) [3, 5] 0
     = Inr ([0, 0], [[Tensor [Scalar 0], Tensor [Scalar 0]]])
   \<and> ComputeElementGradients (fst example_integral) (snd example_integral) = Inl Not_callable"
proof -
  have h: "0 < length (trial_shapes example_config)"
    by (simp add: example_config_def)
  have c: "snd example_integral = [[Tensor [Scalar 0], Tensor [Scalar 0]]]"
    by code_simp
  have r: "replicate (num_elements example_config * test_dofs example_config) (0::real) = [0, 0]"
    by (simp add: example_config_def numeral_2_eq_2)
  from gradient_before_AD [OF h, of 2 "Apply (dot_operator 1) [Trial 0, Trial 0]" "[3, 5]",
      folded example_integral_def]
  show ?thesis unfolding r c .
qed

end
